theory Spec2Isabelle
  imports Main "HOL-Library.Multiset" "HOL-Library.AList"
begin

section \<open>Task management API: data model\<close>

text \<open>
  The service is a set of request handlers over two relational tables, \<open>users\<close> and
  \<open>tasks\<close>. Every handler opens a connection, runs one or two SQL statements and
  closes the connection. The embedding follows the handlers line by line: the store is an
  explicit state, every \<^verbatim>\<open>raise\<close> is a branch returning \<open>Inl\<close>, and the
  current instant (\<^verbatim>\<open>datetime.utcnow()\<close>, \<^verbatim>\<open>CURRENT_TIMESTAMP\<close>) is an
  argument of the request. A string is the sequence of characters that the database
  stores and counts; the column types and constraints are those that
  \<^verbatim>\<open>init_db\<close> declares.

  An instant, like a \<^verbatim>\<open>datetime\<close>, has the resolution of a microsecond: it is the
  number of microseconds since the epoch, and a \<^verbatim>\<open>timedelta\<close> is a number of
  microseconds. A \<^verbatim>\<open>datetime\<close> lies between the first instant of the year 1 and the
  last of the year 9999, and adding a \<^verbatim>\<open>timedelta\<close> to it raises
  \<^verbatim>\<open>OverflowError\<close> when the sum does not.
\<close>

type_synonym datetime = int
type_synonym timedelta = int

definition minutes :: "int \<Rightarrow> timedelta" where
  "minutes n = n * 60000000"

definition days :: "int \<Rightarrow> timedelta" where
  "days n = n * 86400000000"

definition datetime_min :: datetime where
  "datetime_min = - 62135596800000000"

definition datetime_max :: datetime where
  "datetime_max = 253402300799999999"

definition SECRET_KEY :: string where
  "SECRET_KEY = ''your-secret-key-here-change-in-production''"

definition ALGORITHM :: string where
  "ALGORITHM = ''HS256''"

definition ACCESS_TOKEN_EXPIRE_MINUTES :: int where
  "ACCESS_TOKEN_EXPIRE_MINUTES = 30"

definition REFRESH_TOKEN_EXPIRE_DAYS :: int where
  "REFRESH_TOKEN_EXPIRE_DAYS = 7"

subsection \<open>Request and response models\<close>

text \<open>
  A key of a JSON request body is absent, \<^verbatim>\<open>null\<close>, or carries a value.
\<close>

datatype 'a field = Omitted | Null | Value 'a

record UserCreate =
  uc_email :: string
  uc_username :: string
  uc_password :: string
  uc_full_name :: "string option"

record User =
  usr_id :: int
  usr_email :: string
  usr_username :: string
  usr_full_name :: "string option"
  usr_created_at :: datetime

record TaskCreate =
  tc_title :: string
  tc_description :: "string option"
  tc_priority :: string
  tc_due_date :: "datetime option"

record TaskUpdate =
  tu_title :: "string option"
  tu_description :: "string option"
  tu_priority :: "string option"
  tu_status :: "string option"
  tu_due_date :: "datetime option"

record Task =
  t_id :: int
  t_user_id :: int
  t_title :: string
  t_description :: "string option"
  t_priority :: string
  t_status :: string
  t_due_date :: "datetime option"
  t_created_at :: datetime
  t_updated_at :: datetime

text \<open>A row of the \<open>users\<close> table (the dictionary a cursor returns for it).\<close>

record user_row =
  u_id :: int
  u_email :: string
  u_username :: string
  u_full_name :: "string option"
  u_hashed_password :: string
  u_is_active :: bool
  u_created_at :: datetime

text \<open>The row of aggregates of the statistics query; a \<^verbatim>\<open>NULL\<close> is \<open>None\<close>.\<close>

record stats =
  total_tasks :: int
  completed :: "int option"
  in_progress :: "int option"
  pending :: "int option"
  high_priority :: "int option"
  overdue :: "int option"

subsection \<open>Errors\<close>

text \<open>
  \<open>HTTPException\<close> carries the status code, the detail and the headers.
  \<open>RequestValidationError\<close> is the 422 of a body that does not fit its model.
  \<open>ValueError\<close> is the database driver refusing a parameter, \<open>OverflowError\<close> an
  instant outside the range of \<^verbatim>\<open>datetime\<close>. The next three are the exceptions the
  database raises for a statement. The handlers catch none of them.
  \<open>ResponseValidationError\<close> is a handler result that does not fit the response model.
\<close>

datatype error =
    HTTPException nat string "(string \<times> string) list"
  | RequestValidationError
  | ValueError
  | OverflowError
  | StringDataRightTruncation
  | UniqueViolation
  | ForeignKeyViolation
  | ResponseValidationError

subsection \<open>The store\<close>

text \<open>
  The two tables in storage order, the two \<^verbatim>\<open>SERIAL\<close> sequences, and the number of
  connections that are open.
\<close>

record state =
  users :: "user_row list"
  tasks :: "Task list"
  users_id_seq :: int
  tasks_id_seq :: int
  open_connections :: nat

definition get_db_connection :: "state \<Rightarrow> state" where
  "get_db_connection s = s\<lparr>open_connections := Suc (open_connections s)\<rparr>"

definition conn_close :: "state \<Rightarrow> state" where
  "conn_close s = s\<lparr>open_connections := open_connections s - 1\<rparr>"

text \<open>\<^verbatim>\<open>datetime + timedelta\<close>.\<close>

definition datetime_add :: "datetime \<Rightarrow> timedelta \<Rightarrow> error + datetime" where
  "datetime_add t d =
     (if datetime_min \<le> t + d \<and> t + d \<le> datetime_max then Inr (t + d)
      else Inl OverflowError)"

section \<open>SQL statements\<close>

text \<open>
  \<^verbatim>\<open>cur.execute\<close> adapts the parameters before it sends the statement. A string
  parameter that contains the NUL character is refused with \<open>ValueError\<close>, and the
  statement is not sent. \<open>given\<close> lists an optional parameter: none when it is
  \<open>None\<close>, which is sent as \<^verbatim>\<open>NULL\<close>.
\<close>

definition has_nul :: "string \<Rightarrow> bool" where
  "has_nul v = (CHR 0x00 \<in> set v)"

definition given :: "string option \<Rightarrow> string list" where
  "given v = (case v of None \<Rightarrow> [] | Some x \<Rightarrow> [x])"

definition refused :: "string list \<Rightarrow> bool" where
  "refused params = list_ex has_nul params"

text \<open>
  Storing a string in a \<^verbatim>\<open>VARCHAR(n)\<close> column: a longer string is an error, unless
  the excess characters are all spaces, in which case it is truncated to \<open>n\<close> characters.
\<close>

definition varchar :: "nat \<Rightarrow> string \<Rightarrow> error + string" where
  "varchar n v =
     (if length v \<le> n then Inr v
      else if list_all (\<lambda>c. c = CHR '' '') (drop n v) then Inr (take n v)
      else Inl StringDataRightTruncation)"

definition varchar_opt :: "nat \<Rightarrow> string option \<Rightarrow> error + string option" where
  "varchar_opt n v =
     (case v of
        None \<Rightarrow> Inr None
      | Some x \<Rightarrow> (case varchar n x of Inl e \<Rightarrow> Inl e | Inr y \<Rightarrow> Inr (Some y)))"

text \<open>A value that is absent, or short enough for a column of width \<open>n\<close>.\<close>

definition fits :: "nat \<Rightarrow> string option \<Rightarrow> bool" where
  "fits n v = (case v of None \<Rightarrow> True | Some x \<Rightarrow> length x \<le> n)"

text \<open>Three-valued logic for the comparisons that can meet a \<^verbatim>\<open>NULL\<close>.\<close>

definition sql_lt :: "int option \<Rightarrow> int option \<Rightarrow> bool option" where
  "sql_lt a b =
     (case a of None \<Rightarrow> None
      | Some x \<Rightarrow> (case b of None \<Rightarrow> None | Some y \<Rightarrow> Some (x < y)))"

definition sql_and :: "bool option \<Rightarrow> bool option \<Rightarrow> bool option" where
  "sql_and p q =
     (if p = Some False \<or> q = Some False then Some False
      else if p = Some True \<and> q = Some True then Some True
      else None)"

text \<open>\<^verbatim>\<open>CASE WHEN c THEN 1 ELSE 0 END\<close>: the first branch only when \<open>c\<close> is true.\<close>

definition case_when :: "bool option \<Rightarrow> int" where
  "case_when c = (if c = Some True then 1 else 0)"

text \<open>\<^verbatim>\<open>SUM\<close> over no rows is \<^verbatim>\<open>NULL\<close>; \<^verbatim>\<open>COUNT(*)\<close> over no rows is 0.\<close>

definition sql_sum :: "int list \<Rightarrow> int option" where
  "sql_sum xs = (if xs = [] then None else Some (sum_list xs))"

definition sql_count :: "'a list \<Rightarrow> int" where
  "sql_count xs = int (length xs)"

subsection \<open>Statements on \<open>tasks\<close>\<close>

text \<open>
  \<^verbatim>\<open>INSERT INTO tasks (user_id, title, description, priority, due_date) ... RETURNING *\<close>:
  the id comes from the sequence, status and both timestamps from the column defaults.
\<close>

definition insert_task ::
  "int \<Rightarrow> string \<Rightarrow> string option \<Rightarrow> string \<Rightarrow> datetime option \<Rightarrow> datetime \<Rightarrow> state
    \<Rightarrow> error + (Task \<times> state)" where
  "insert_task uid title description priority due_date now s =
     (if refused ([title] @ given description @ [priority]) then Inl ValueError
      else case varchar 255 title of
        Inl e \<Rightarrow> Inl e
      | Inr title' \<Rightarrow>
          (case varchar 20 priority of
             Inl e \<Rightarrow> Inl e
           | Inr priority' \<Rightarrow>
               if \<not> list_ex (\<lambda>u. u_id u = uid) (users s) then Inl ForeignKeyViolation
               else
                 let row = \<lparr>t_id = tasks_id_seq s, t_user_id = uid, t_title = title',
                            t_description = description, t_priority = priority',
                            t_status = ''pending'', t_due_date = due_date,
                            t_created_at = now, t_updated_at = now\<rparr>
                 in Inr (row, s\<lparr>tasks := tasks s @ [row],
                                 tasks_id_seq := tasks_id_seq s + 1\<rparr>)))"

text \<open>\<^verbatim>\<open>SELECT * FROM tasks WHERE id = %s AND user_id = %s\<close>, then \<^verbatim>\<open>fetchone\<close>.\<close>

definition select_task :: "int \<Rightarrow> int \<Rightarrow> state \<Rightarrow> Task option" where
  "select_task task_id uid s =
     find (\<lambda>t. t_id t = task_id \<and> t_user_id t = uid) (tasks s)"

text \<open>\<^verbatim>\<open>ORDER BY created_at DESC\<close>.\<close>

definition order_by_created_at_desc :: "Task list \<Rightarrow> Task list" where
  "order_by_created_at_desc rows = sort_key (\<lambda>t. - t_created_at t) rows"

text \<open>
  The assignments of the \<^verbatim>\<open>SET\<close> clause that \<open>update_task\<close> builds: one per field
  that is not \<open>None\<close>, then \<^verbatim>\<open>updated_at = CURRENT_TIMESTAMP\<close>.
\<close>

definition set_clause :: "TaskUpdate \<Rightarrow> datetime \<Rightarrow> Task \<Rightarrow> Task" where
  "set_clause v now t =
     t\<lparr>t_title := (case tu_title v of None \<Rightarrow> t_title t | Some x \<Rightarrow> x),
       t_description := (case tu_description v of None \<Rightarrow> t_description t | Some x \<Rightarrow> Some x),
       t_priority := (case tu_priority v of None \<Rightarrow> t_priority t | Some x \<Rightarrow> x),
       t_status := (case tu_status v of None \<Rightarrow> t_status t | Some x \<Rightarrow> x),
       t_due_date := (case tu_due_date v of None \<Rightarrow> t_due_date t | Some x \<Rightarrow> Some x),
       t_updated_at := now\<rparr>"

text \<open>
  \<^verbatim>\<open>UPDATE tasks SET ... WHERE id = %s AND user_id = %s RETURNING *\<close>, then
  \<^verbatim>\<open>fetchone\<close>. The values are first coerced to their columns.
\<close>

definition update_tasks ::
  "TaskUpdate \<Rightarrow> int \<Rightarrow> int \<Rightarrow> datetime \<Rightarrow> state \<Rightarrow> error + (Task option \<times> state)" where
  "update_tasks v task_id uid now s =
     (if refused (given (tu_title v) @ given (tu_description v) @ given (tu_priority v)
                  @ given (tu_status v))
      then Inl ValueError
      else case varchar_opt 255 (tu_title v) of
        Inl e \<Rightarrow> Inl e
      | Inr title' \<Rightarrow>
          (case varchar_opt 20 (tu_priority v) of
             Inl e \<Rightarrow> Inl e
           | Inr priority' \<Rightarrow>
               (case varchar_opt 20 (tu_status v) of
                  Inl e \<Rightarrow> Inl e
                | Inr status' \<Rightarrow>
                    let v' = v\<lparr>tu_title := title', tu_priority := priority',
                               tu_status := status'\<rparr>;
                        hit = (\<lambda>t. t_id t = task_id \<and> t_user_id t = uid);
                        rows = map (\<lambda>t. if hit t then set_clause v' now t else t) (tasks s)
                    in Inr (find hit rows, s\<lparr>tasks := rows\<rparr>))))"

text \<open>\<^verbatim>\<open>DELETE FROM tasks WHERE id = %s AND user_id = %s RETURNING id\<close>, then \<^verbatim>\<open>fetchone\<close>.\<close>

definition delete_tasks :: "int \<Rightarrow> int \<Rightarrow> state \<Rightarrow> int option \<times> state" where
  "delete_tasks task_id uid s =
     (let hit = (\<lambda>t. t_id t = task_id \<and> t_user_id t = uid)
      in (map_option t_id (find hit (tasks s)),
          s\<lparr>tasks := filter (\<lambda>t. \<not> hit t) (tasks s)\<rparr>))"

text \<open>
  The query of \<open>get_tasks\<close>: the owner predicate, then one equality per filter that
  is truthy (\<^verbatim>\<open>if status:\<close>, \<^verbatim>\<open>if priority:\<close>), newest first. Only a filter
  that is truthy becomes a parameter. Where two rows have the same creation instant SQL
  leaves their order open; the list below is one such order, and no theorem depends on
  which.
\<close>

definition truthy :: "string option \<Rightarrow> bool" where
  "truthy v = (case v of None \<Rightarrow> False | Some x \<Rightarrow> x \<noteq> [])"

definition select_tasks ::
  "string option \<Rightarrow> string option \<Rightarrow> int \<Rightarrow> state \<Rightarrow> error + Task list" where
  "select_tasks status priority uid s =
     (if refused ((if truthy status then given status else [])
                  @ (if truthy priority then given priority else []))
      then Inl ValueError
      else Inr (order_by_created_at_desc
             (filter (\<lambda>t. t_user_id t = uid
                        \<and> (if truthy status then Some (t_status t) = status else True)
                        \<and> (if truthy priority then Some (t_priority t) = priority else True))
                (tasks s))))"

text \<open>The aggregate query of \<open>get_task_statistics\<close>.\<close>

definition select_stats :: "int \<Rightarrow> datetime \<Rightarrow> state \<Rightarrow> stats" where
  "select_stats uid now s =
     (let rows = filter (\<lambda>t. t_user_id t = uid) (tasks s)
      in \<lparr>total_tasks = sql_count rows,
          completed = sql_sum (map (\<lambda>t. case_when (Some (t_status t = ''completed''))) rows),
          in_progress = sql_sum (map (\<lambda>t. case_when (Some (t_status t = ''in_progress''))) rows),
          pending = sql_sum (map (\<lambda>t. case_when (Some (t_status t = ''pending''))) rows),
          high_priority = sql_sum (map (\<lambda>t. case_when (Some (t_priority t = ''high''))) rows),
          overdue = sql_sum (map (\<lambda>t. case_when
                       (sql_and (sql_lt (t_due_date t) (Some now))
                                (Some (t_status t \<noteq> ''completed'')))) rows)\<rparr>)"

subsection \<open>Statements on \<open>users\<close>\<close>

definition select_user_by_id :: "int \<Rightarrow> state \<Rightarrow> user_row option" where
  "select_user_by_id uid s = find (\<lambda>u. u_id u = uid) (users s)"

definition select_user_by_username :: "string \<Rightarrow> state \<Rightarrow> error + user_row option" where
  "select_user_by_username name s =
     (if refused [name] then Inl ValueError
      else Inr (find (\<lambda>u. u_username u = name) (users s)))"

definition select_user_by_email_or_username ::
  "string \<Rightarrow> string \<Rightarrow> state \<Rightarrow> error + user_row option" where
  "select_user_by_email_or_username email name s =
     (if refused [email, name] then Inl ValueError
      else Inr (find (\<lambda>u. u_email u = email \<or> u_username u = name) (users s)))"

text \<open>
  \<^verbatim>\<open>INSERT INTO users (email, username, full_name, hashed_password) ... RETURNING *\<close>,
  with the two \<^verbatim>\<open>UNIQUE\<close> constraints of the table.
\<close>

definition insert_user ::
  "string \<Rightarrow> string \<Rightarrow> string option \<Rightarrow> string \<Rightarrow> datetime \<Rightarrow> state
    \<Rightarrow> error + (user_row \<times> state)" where
  "insert_user email name full_name hashed now s =
     (if refused ([email, name] @ given full_name @ [hashed]) then Inl ValueError
      else case varchar 255 email of
        Inl e \<Rightarrow> Inl e
      | Inr email' \<Rightarrow>
     (case varchar 100 name of
        Inl e \<Rightarrow> Inl e
      | Inr name' \<Rightarrow>
     (case varchar_opt 255 full_name of
        Inl e \<Rightarrow> Inl e
      | Inr full_name' \<Rightarrow>
     (case varchar 255 hashed of
        Inl e \<Rightarrow> Inl e
      | Inr hashed' \<Rightarrow>
          if list_ex (\<lambda>u. u_email u = email' \<or> u_username u = name') (users s)
          then Inl UniqueViolation
          else
            let row = \<lparr>u_id = users_id_seq s, u_email = email', u_username = name',
                       u_full_name = full_name', u_hashed_password = hashed',
                       u_is_active = True, u_created_at = now\<rparr>
            in Inr (row, s\<lparr>users := users s @ [row],
                            users_id_seq := users_id_seq s + 1\<rparr>)))))"

section \<open>Task handlers\<close>

text \<open>
  Each handler takes the user row that \<open>get_current_user\<close> resolved and returns its
  result, or the exception it raises, with the state it leaves. A statement that raises
  skips the rest of the handler, the \<^verbatim>\<open>conn.close()\<close> included.
\<close>

definition not_found :: error where
  "not_found = HTTPException 404 ''Task not found'' []"

definition create_task :: "TaskCreate \<Rightarrow> user_row \<Rightarrow> datetime \<Rightarrow> state \<Rightarrow> (error + Task) \<times> state" where
  "create_task task current_user now s =
     (let s1 = get_db_connection s
      in case insert_task (u_id current_user) (tc_title task) (tc_description task)
                (tc_priority task) (tc_due_date task) now s1 of
           Inl e \<Rightarrow> (Inl e, s1)
         | Inr (new_task, s2) \<Rightarrow> (Inr new_task, conn_close s2))"

definition get_tasks ::
  "string option \<Rightarrow> string option \<Rightarrow> user_row \<Rightarrow> state \<Rightarrow> (error + Task list) \<times> state" where
  "get_tasks status priority current_user s =
     (let s1 = get_db_connection s
      in case select_tasks status priority (u_id current_user) s1 of
           Inl e \<Rightarrow> (Inl e, s1)
         | Inr rows \<Rightarrow> (Inr rows, conn_close s1))"

definition get_task :: "int \<Rightarrow> user_row \<Rightarrow> state \<Rightarrow> (error + Task) \<times> state" where
  "get_task task_id current_user s =
     (let s1 = get_db_connection s;
          task = select_task task_id (u_id current_user) s1;
          s2 = conn_close s1
      in case task of
           None \<Rightarrow> (Inl not_found, s2)
         | Some t \<Rightarrow> (Inr t, s2))"

definition update_task ::
  "int \<Rightarrow> TaskUpdate \<Rightarrow> user_row \<Rightarrow> datetime \<Rightarrow> state \<Rightarrow> (error + Task) \<times> state" where
  "update_task task_id task_update current_user now s =
     (let s1 = get_db_connection s
      in case select_task task_id (u_id current_user) s1 of
           None \<Rightarrow> (Inl not_found, conn_close s1)
         | Some existing_task \<Rightarrow>
             (case update_tasks task_update task_id (u_id current_user) now s1 of
                Inl e \<Rightarrow> (Inl e, s1)
              | Inr (updated_task, s2) \<Rightarrow>
                  (case updated_task of
                     None \<Rightarrow> (Inl ResponseValidationError, conn_close s2)
                   | Some t \<Rightarrow> (Inr t, conn_close s2))))"

definition delete_task :: "int \<Rightarrow> user_row \<Rightarrow> state \<Rightarrow> (error + unit) \<times> state" where
  "delete_task task_id current_user s =
     (let s1 = get_db_connection s;
          (deleted, s2) = delete_tasks task_id (u_id current_user) s1;
          s3 = conn_close s2
      in case deleted of
           None \<Rightarrow> (Inl not_found, s3)
         | Some _ \<Rightarrow> (Inr (), s3))"

definition get_task_statistics :: "user_row \<Rightarrow> datetime \<Rightarrow> state \<Rightarrow> (error + stats) \<times> state" where
  "get_task_statistics current_user now s =
     (let s1 = get_db_connection s;
          row = select_stats (u_id current_user) now s1
      in (Inr row, conn_close s1))"

section \<open>Credential service\<close>

text \<open>
  The password hashing scheme belongs to a library; the handlers take it as a parameter:
  \<open>cc_hash\<close> is the hash computed for this request, \<open>cc_verify\<close> the scheme's check of
  a password against a stored hash.
\<close>

record CryptContext =
  cc_hash :: "string \<Rightarrow> string"
  cc_verify :: "string \<Rightarrow> string \<Rightarrow> bool"

definition verify_password :: "CryptContext \<Rightarrow> string \<Rightarrow> string \<Rightarrow> bool" where
  "verify_password pwd_context plain_password hashed_password =
     cc_verify pwd_context plain_password hashed_password"

definition get_password_hash :: "CryptContext \<Rightarrow> string \<Rightarrow> string" where
  "get_password_hash pwd_context password = cc_hash pwd_context password"

subsection \<open>Signed tokens\<close>

text \<open>
  Modelled from the spec: the token library's \<^verbatim>\<open>encode\<close> and \<^verbatim>\<open>decode\<close>, which are
  not part of the source. A token "encodes subject and absolute expiry; signed with a
  server secret using a symmetric MAC-based signing algorithm", and validation "verifies
  signature and expiry". The signature is symbolic: the algorithm, the key and the payload
  it was computed over; any other signature is a bad one. A string that is not a token at
  all is \<open>Malformed\<close>. The payload is the dictionary of claims in insertion order.
\<close>

type_synonym payload = "(string \<times> int) list"

datatype signature = HMAC string string payload

datatype jwt = Malformed string | Jwt string payload signature

datatype jwt_error =
  DecodeError | InvalidAlgorithmError | InvalidSignatureError | ExpiredSignatureError

text \<open>Modelled from the spec: signing a payload with a key.\<close>

definition jwt_encode :: "payload \<Rightarrow> string \<Rightarrow> string \<Rightarrow> jwt" where
  "jwt_encode claims key algorithm = Jwt algorithm claims (HMAC algorithm key claims)"

text \<open>
  Modelled from the spec: validation fails on a malformed token, on a bad signature and
  on expiry; a token is expired from the instant of its \<open>exp\<close> claim on.
\<close>

definition jwt_decode :: "jwt \<Rightarrow> string \<Rightarrow> string list \<Rightarrow> datetime \<Rightarrow> jwt_error + payload" where
  "jwt_decode token key algorithms now =
     (case token of
        Malformed _ \<Rightarrow> Inl DecodeError
      | Jwt alg claims sg \<Rightarrow>
          if alg \<notin> set algorithms then Inl InvalidAlgorithmError
          else if sg \<noteq> HMAC alg key claims then Inl InvalidSignatureError
          else (case map_of claims ''exp'' of
                  None \<Rightarrow> Inr claims
                | Some e \<Rightarrow> if e \<le> now then Inl ExpiredSignatureError else Inr claims))"

text \<open>
  \<open>create_access_token\<close>: \<^verbatim>\<open>if expires_delta:\<close> is false for no delta and for a
  delta of zero, and both take the default of fifteen minutes. The addition raises
  \<open>OverflowError\<close> when the expiry is not a \<^verbatim>\<open>datetime\<close>.
\<close>

definition create_access_token ::
  "payload \<Rightarrow> timedelta option \<Rightarrow> datetime \<Rightarrow> error + jwt" where
  "create_access_token data expires_delta now =
     (case (case expires_delta of
              None \<Rightarrow> datetime_add now (minutes 15)
            | Some d \<Rightarrow> if d \<noteq> 0 then datetime_add now d
                       else datetime_add now (minutes 15)) of
        Inl e \<Rightarrow> Inl e
      | Inr expire \<Rightarrow>
          let to_encode = AList.update ''exp'' expire data
          in Inr (jwt_encode to_encode SECRET_KEY ALGORITHM))"

definition create_refresh_token :: "payload \<Rightarrow> datetime \<Rightarrow> error + jwt" where
  "create_refresh_token data now =
     (case datetime_add now (days REFRESH_TOKEN_EXPIRE_DAYS) of
        Inl e \<Rightarrow> Inl e
      | Inr expire \<Rightarrow>
          let to_encode = AList.update ''exp'' expire data
          in Inr (jwt_encode to_encode SECRET_KEY ALGORITHM))"

definition credentials_exception :: error where
  "credentials_exception =
     HTTPException 401 ''Could not validate credentials'' [(''WWW-Authenticate'', ''Bearer'')]"

definition get_current_user :: "jwt \<Rightarrow> datetime \<Rightarrow> state \<Rightarrow> (error + user_row) \<times> state" where
  "get_current_user token now s =
     (case jwt_decode token SECRET_KEY [ALGORITHM] now of
        Inl _ \<Rightarrow> (Inl credentials_exception, s)
      | Inr claims \<Rightarrow>
          (case map_of claims ''sub'' of
             None \<Rightarrow> (Inl credentials_exception, s)
           | Some user_id \<Rightarrow>
               let s1 = get_db_connection s;
                   user = select_user_by_id user_id s1;
                   s2 = conn_close s1
               in (case user of
                     None \<Rightarrow> (Inl credentials_exception, s2)
                   | Some u \<Rightarrow> (Inr u, s2))))"

section \<open>Authentication handlers\<close>

record OAuth2PasswordRequestForm =
  form_username :: string
  form_password :: string

record Token =
  access_token :: jwt
  refresh_token :: jwt
  token_type :: string

definition register ::
  "CryptContext \<Rightarrow> UserCreate \<Rightarrow> datetime \<Rightarrow> state \<Rightarrow> (error + user_row) \<times> state" where
  "register pwd_context user now s =
     (let s1 = get_db_connection s
      in case select_user_by_email_or_username (uc_email user) (uc_username user) s1 of
           Inl e \<Rightarrow> (Inl e, s1)
         | Inr (Some _) \<Rightarrow>
             (Inl (HTTPException 400 ''Email or username already registered'' []),
              conn_close s1)
         | Inr None \<Rightarrow>
             let hashed_password = get_password_hash pwd_context (uc_password user)
             in (case insert_user (uc_email user) (uc_username user) (uc_full_name user)
                        hashed_password now s1 of
                   Inl e \<Rightarrow> (Inl e, s1)
                 | Inr (new_user, s2) \<Rightarrow> (Inr new_user, conn_close s2)))"

definition login ::
  "CryptContext \<Rightarrow> OAuth2PasswordRequestForm \<Rightarrow> datetime \<Rightarrow> state \<Rightarrow> (error + Token) \<times> state" where
  "login pwd_context form_data now s =
     (let s1 = get_db_connection s
      in case select_user_by_username (form_username form_data) s1 of
           Inl e \<Rightarrow> (Inl e, s1)
         | Inr user \<Rightarrow>
             let s2 = conn_close s1
             in (case user of
                   None \<Rightarrow>
                     (Inl (HTTPException 401 ''Incorrect username or password''
                             [(''WWW-Authenticate'', ''Bearer'')]), s2)
                 | Some u \<Rightarrow>
                     if \<not> verify_password pwd_context (form_password form_data)
                            (u_hashed_password u)
                     then (Inl (HTTPException 401 ''Incorrect username or password''
                                  [(''WWW-Authenticate'', ''Bearer'')]), s2)
                     else
                       let access_token_expires = minutes ACCESS_TOKEN_EXPIRE_MINUTES
                       in (case create_access_token [(''sub'', u_id u)]
                                  (Some access_token_expires) now of
                             Inl e \<Rightarrow> (Inl e, s2)
                           | Inr access \<Rightarrow>
                               (case create_refresh_token [(''sub'', u_id u)] now of
                                  Inl e \<Rightarrow> (Inl e, s2)
                                | Inr refresh \<Rightarrow>
                                    (Inr \<lparr>access_token = access, refresh_token = refresh,
                                          token_type = ''bearer''\<rparr>, s2)))))"

definition read_users_me :: "user_row \<Rightarrow> user_row" where
  "read_users_me current_user = current_user"

section \<open>The application\<close>

text \<open>
  A request body is checked against its model before the handler runs. A field declared
  \<^verbatim>\<open>Optional[...] = None\<close> is \<open>None\<close> when the key is absent and when it is
  \<^verbatim>\<open>null\<close>; a field declared \<^verbatim>\<open>str\<close> must carry a value, or takes its default
  when the key is absent.
\<close>

definition optional :: "'a field \<Rightarrow> 'a option" where
  "optional f = (case f of Omitted \<Rightarrow> None | Null \<Rightarrow> None | Value v \<Rightarrow> Some v)"

record TaskCreate_body =
  bc_title :: "string field"
  bc_description :: "string field"
  bc_priority :: "string field"
  bc_due_date :: "datetime field"

record TaskUpdate_body =
  bu_title :: "string field"
  bu_description :: "string field"
  bu_priority :: "string field"
  bu_status :: "string field"
  bu_due_date :: "datetime field"

definition parse_TaskCreate :: "TaskCreate_body \<Rightarrow> error + TaskCreate" where
  "parse_TaskCreate b =
     (case bc_title b of
        Omitted \<Rightarrow> Inl RequestValidationError
      | Null \<Rightarrow> Inl RequestValidationError
      | Value title \<Rightarrow>
          (case bc_priority b of
             Null \<Rightarrow> Inl RequestValidationError
           | Omitted \<Rightarrow>
               Inr \<lparr>tc_title = title, tc_description = optional (bc_description b),
                    tc_priority = ''medium'', tc_due_date = optional (bc_due_date b)\<rparr>
           | Value priority \<Rightarrow>
               Inr \<lparr>tc_title = title, tc_description = optional (bc_description b),
                    tc_priority = priority, tc_due_date = optional (bc_due_date b)\<rparr>))"

definition parse_TaskUpdate :: "TaskUpdate_body \<Rightarrow> error + TaskUpdate" where
  "parse_TaskUpdate b =
     Inr \<lparr>tu_title = optional (bu_title b), tu_description = optional (bu_description b),
          tu_priority = optional (bu_priority b), tu_status = optional (bu_status b),
          tu_due_date = optional (bu_due_date b)\<rparr>"

text \<open>The two routes with a body, after authentication.\<close>

definition post_tasks ::
  "TaskCreate_body \<Rightarrow> user_row \<Rightarrow> datetime \<Rightarrow> state \<Rightarrow> (error + Task) \<times> state" where
  "post_tasks body current_user now s =
     (case parse_TaskCreate body of
        Inl e \<Rightarrow> (Inl e, s)
      | Inr task \<Rightarrow> create_task task current_user now s)"

definition put_task ::
  "int \<Rightarrow> TaskUpdate_body \<Rightarrow> user_row \<Rightarrow> datetime \<Rightarrow> state \<Rightarrow> (error + Task) \<times> state" where
  "put_task task_id body current_user now s =
     (case parse_TaskUpdate body of
        Inl e \<Rightarrow> (Inl e, s)
      | Inr task_update \<Rightarrow> update_task task_id task_update current_user now s)"

text \<open>\<^verbatim>\<open>response_model=User\<close> keeps the fields of \<open>User\<close> only.\<close>

definition to_User :: "user_row \<Rightarrow> User" where
  "to_User u = \<lparr>usr_id = u_id u, usr_email = u_email u, usr_username = u_username u,
                usr_full_name = u_full_name u, usr_created_at = u_created_at u\<rparr>"

datatype request =
    PostRegister UserCreate
  | PostToken OAuth2PasswordRequestForm
  | GetUsersMe jwt
  | PostTasks jwt TaskCreate_body
  | GetTasks jwt "string option" "string option"
  | GetTask jwt int
  | PutTask jwt int TaskUpdate_body
  | DeleteTask jwt int
  | GetStatsSummary jwt

datatype response =
    UserResponse User
  | TokenResponse Token
  | TaskResponse Task
  | TaskListResponse "Task list"
  | NoContent
  | StatsResponse stats

definition respond :: "('a \<Rightarrow> response) \<Rightarrow> (error + 'a) \<times> state \<Rightarrow> (error + response) \<times> state" where
  "respond f r = (case r of (Inl e, s) \<Rightarrow> (Inl e, s) | (Inr x, s) \<Rightarrow> (Inr (f x), s))"

text \<open>\<^verbatim>\<open>Depends(get_current_user)\<close>: the handler runs only with a resolved user.\<close>

definition depends ::
  "jwt \<Rightarrow> datetime \<Rightarrow> state \<Rightarrow> (user_row \<Rightarrow> state \<Rightarrow> (error + response) \<times> state)
    \<Rightarrow> (error + response) \<times> state" where
  "depends token now s handler =
     (case get_current_user token now s of
        (Inl e, s') \<Rightarrow> (Inl e, s')
      | (Inr current_user, s') \<Rightarrow> handler current_user s')"

fun handle :: "CryptContext \<Rightarrow> request \<Rightarrow> datetime \<Rightarrow> state \<Rightarrow> (error + response) \<times> state" where
  "handle pc (PostRegister user) now s =
     respond (\<lambda>u. UserResponse (to_User u)) (register pc user now s)"
| "handle pc (PostToken form_data) now s =
     respond TokenResponse (login pc form_data now s)"
| "handle pc (GetUsersMe token) now s =
     depends token now s (\<lambda>cu s'. (Inr (UserResponse (to_User (read_users_me cu))), s'))"
| "handle pc (PostTasks token body) now s =
     depends token now s (\<lambda>cu s'. respond TaskResponse (post_tasks body cu now s'))"
| "handle pc (GetTasks token status priority) now s =
     depends token now s (\<lambda>cu s'. respond TaskListResponse (get_tasks status priority cu s'))"
| "handle pc (GetTask token task_id) now s =
     depends token now s (\<lambda>cu s'. respond TaskResponse (get_task task_id cu s'))"
| "handle pc (PutTask token task_id body) now s =
     depends token now s (\<lambda>cu s'. respond TaskResponse (put_task task_id body cu now s'))"
| "handle pc (DeleteTask token task_id) now s =
     depends token now s (\<lambda>cu s'. respond (\<lambda>_. NoContent) (delete_task task_id cu s'))"
| "handle pc (GetStatsSummary token) now s =
     depends token now s (\<lambda>cu s'. respond StatsResponse (get_task_statistics cu now s'))"

text \<open>A sequence of requests, each with the instant at which it is served.\<close>

fun serve ::
  "CryptContext \<Rightarrow> (request \<times> datetime) list \<Rightarrow> state \<Rightarrow> (error + response) list \<times> state" where
  "serve pc [] s = ([], s)"
| "serve pc ((req, now) # rest) s =
     (case handle pc req now s of
        (r, s') \<Rightarrow> (case serve pc rest s' of (rs, s'') \<Rightarrow> (r # rs, s'')))"

section \<open>Notions used in the properties\<close>

text \<open>A description or a due date that is set in \<open>r\<close> is still set in \<open>r'\<close>.\<close>

definition keeps_optionals :: "Task \<Rightarrow> Task \<Rightarrow> bool" where
  "keeps_optionals r r' =
     ((t_description r = None \<or> t_description r' \<noteq> None)
      \<and> (t_due_date r = None \<or> t_due_date r' \<noteq> None))"

text \<open>A parameter that is absent, or a string without the NUL character.\<close>

definition nul_free :: "string option \<Rightarrow> bool" where
  "nul_free v = (case v of None \<Rightarrow> True | Some x \<Rightarrow> \<not> has_nul x)"

text \<open>
  An update that the driver sends and the columns hold: no supplied string contains the
  NUL character, a supplied title has at most 255 characters, a supplied priority and a
  supplied status at most 20.
\<close>

definition storable :: "TaskUpdate \<Rightarrow> bool" where
  "storable v =
     (nul_free (tu_title v) \<and> nul_free (tu_description v) \<and> nul_free (tu_priority v)
      \<and> nul_free (tu_status v)
      \<and> fits 255 (tu_title v) \<and> fits 20 (tu_priority v) \<and> fits 20 (tu_status v))"

text \<open>The tasks of a user, in storage order.\<close>

definition tasks_of :: "user_row \<Rightarrow> state \<Rightarrow> Task list" where
  "tasks_of u s = filter (\<lambda>t. t_user_id t = u_id u) (tasks s)"

text \<open>A status of the enumeration pending, in\_progress, completed.\<close>

definition known_status :: "Task \<Rightarrow> bool" where
  "known_status t = (t_status t \<in> set [''pending'', ''in_progress'', ''completed''])"

text \<open>Overdue: a due date strictly before the current instant and a status other than completed.\<close>

definition is_overdue :: "datetime \<Rightarrow> Task \<Rightarrow> bool" where
  "is_overdue now t =
     (case t_due_date t of None \<Rightarrow> False | Some d \<Rightarrow> d < now \<and> t_status t \<noteq> ''completed'')"

text \<open>A value passes a filter that is absent, empty, or equal to it.\<close>

definition matches :: "string option \<Rightarrow> string \<Rightarrow> bool" where
  "matches flt v = (flt = None \<or> flt = Some [] \<or> flt = Some v)"

text \<open>The token that carries a payload with the signature of the server key.\<close>

definition signed :: "payload \<Rightarrow> jwt" where
  "signed claims = Jwt ALGORITHM claims (HMAC ALGORITHM SECRET_KEY claims)"


text \<open>
  Two stores differ at most in the \<open>is_active\<close> flags of their users when erasing
  the flags (setting every one) makes them equal.
\<close>

definition activate :: "user_row \<Rightarrow> user_row" where
  "activate u = u\<lparr>u_is_active := True\<rparr>"

definition erase_active :: "state \<Rightarrow> state" where
  "erase_active s = s\<lparr>users := map activate (users s)\<rparr>"

text \<open>
  The exceptions that \<^verbatim>\<open>cur.execute\<close> raises, from the driver or from the database,
  and a handler result that is one of them. A request is in balance when it leaves as
  many connections open as it found, and one more exactly when it ends in such an
  exception.
\<close>

definition statement_error :: "error \<Rightarrow> bool" where
  "statement_error e =
     (e = ValueError \<or> e = StringDataRightTruncation \<or> e = UniqueViolation
      \<or> e = ForeignKeyViolation)"

definition raised_by_statement :: "error + 'a \<Rightarrow> bool" where
  "raised_by_statement r = (case r of Inl e \<Rightarrow> statement_error e | Inr _ \<Rightarrow> False)"

definition balance :: "(error + 'a) \<times> state \<Rightarrow> state \<Rightarrow> bool" where
  "balance r s =
     (open_connections (snd r)
        = open_connections s + (if raised_by_statement (fst r) then 1 else 0))"

text \<open>
  The primary keys: ids are unique in each table and below the next value of the
  table's sequence. \<open>fresh_database\<close> is the store that \<^verbatim>\<open>init_db()\<close> leaves on a
  fresh database: both tables empty, both sequences at 1.
\<close>

definition primary_keys :: "state \<Rightarrow> bool" where
  "primary_keys s =
     (distinct (map t_id (tasks s)) \<and> list_all (\<lambda>t. t_id t < tasks_id_seq s) (tasks s)
      \<and> distinct (map u_id (users s)) \<and> list_all (\<lambda>u. u_id u < users_id_seq s) (users s))"

definition fresh_database :: state where
  "fresh_database = \<lparr>users = [], tasks = [], users_id_seq = 1, tasks_id_seq = 1,
               open_connections = 0\<rparr>"

section \<open>Example data\<close>

definition alice :: user_row where
  "alice = \<lparr>u_id = 1, u_email = ''alice@example.com'', u_username = ''alice'',
             u_full_name = None, u_hashed_password = ''hash-of-a'', u_is_active = True,
             u_created_at = 0\<rparr>"

definition bob :: user_row where
  "bob = \<lparr>u_id = 2, u_email = ''bob@example.com'', u_username = ''bob'',
           u_full_name = Some ''Bob'', u_hashed_password = ''hash-of-b'', u_is_active = True,
           u_created_at = 5\<rparr>"

definition report :: Task where
  "report = \<lparr>t_id = 1, t_user_id = 1, t_title = ''report'',
              t_description = Some ''quarterly'', t_priority = ''high'',
              t_status = ''pending'', t_due_date = Some 50, t_created_at = 10,
              t_updated_at = 10\<rparr>"

definition groceries :: Task where
  "groceries = \<lparr>t_id = 2, t_user_id = 1, t_title = ''groceries'',
                 t_description = None, t_priority = ''low'',
                 t_status = ''completed'', t_due_date = None, t_created_at = 20,
                 t_updated_at = 30\<rparr>"

definition store :: state where
  "store = \<lparr>users = [alice, bob], tasks = [report, groceries], users_id_seq = 3,
             tasks_id_seq = 3, open_connections = 0\<rparr>"

definition long_title :: string where
  "long_title = replicate 256 (CHR ''a'')"

definition only_status :: "string \<Rightarrow> TaskUpdate" where
  "only_status v = \<lparr>tu_title = None, tu_description = None, tu_priority = None,
                    tu_status = Some v, tu_due_date = None\<rparr>"

definition only_title :: "string \<Rightarrow> TaskUpdate" where
  "only_title v = \<lparr>tu_title = Some v, tu_description = None, tu_priority = None,
                   tu_status = None, tu_due_date = None\<rparr>"

definition no_fields :: TaskUpdate_body where
  "no_fields = \<lparr>bu_title = Omitted, bu_description = Omitted, bu_priority = Omitted,
                 bu_status = Omitted, bu_due_date = Omitted\<rparr>"

definition archive :: state where
  "archive = store\<lparr>tasks := [report\<lparr>t_status := ''archived'', t_updated_at := 40\<rparr>, groceries]\<rparr>"

definition urgent_body :: TaskCreate_body where
  "urgent_body = \<lparr>bc_title = Value ''deploy'', bc_description = Omitted,
                   bc_priority = Value ''urgent'', bc_due_date = Omitted\<rparr>"

definition deploy :: Task where
  "deploy = \<lparr>t_id = 3, t_user_id = 1, t_title = ''deploy'', t_description = None,
              t_priority = ''urgent'', t_status = ''pending'', t_due_date = None,
              t_created_at = 40, t_updated_at = 40\<rparr>"

definition alice_token :: jwt where
  "alice_token = signed [(''sub'', 1), (''exp'', 1800000100)]"


definition nul_title :: string where
  "nul_title = [CHR ''a'', CHR 0x00, CHR ''b'']"

definition plain_context :: CryptContext where
  "plain_context = \<lparr>cc_hash = (\<lambda>p. ''hash-of-'' @ p),
                     cc_verify = (\<lambda>p h. h = ''hash-of-'' @ p)\<rparr>"

definition dormant :: state where
  "dormant = store\<lparr>users := [alice, bob\<lparr>u_is_active := False\<rparr>]\<rparr>"

definition bob_form :: OAuth2PasswordRequestForm where
  "bob_form = \<lparr>form_username = ''bob'', form_password = ''b''\<rparr>"

definition bob_token :: jwt where
  "bob_token = signed [(''sub'', 2), (''exp'', 1800000100)]"

definition bob_refresh_token :: jwt where
  "bob_refresh_token = signed [(''sub'', 2), (''exp'', 604800000100)]"

definition bob_session :: "(request \<times> datetime) list" where
  "bob_session = [(PostToken bob_form, 100), (PostTasks bob_token urgent_body, 200),
                  (GetStatsSummary bob_token, 300)]"

definition long_name :: string where
  "long_name = replicate 101 (CHR ''c'')"

definition carol :: UserCreate where
  "carol = \<lparr>uc_email = ''carol@example.com'', uc_username = long_name,
             uc_password = ''c'', uc_full_name = None\<rparr>"

section \<open>Properties of the handlers\<close>

subsection \<open>Connections and lookups\<close>

lemma conn_roundtrip: "conn_close (get_db_connection s) = s"
  by (simp add: conn_close_def get_db_connection_def)

lemma tasks_get_db_connection: "tasks (get_db_connection s) = tasks s"
  by (simp add: get_db_connection_def)

lemma select_task_connection:
  "select_task task_id uid (get_db_connection s) = select_task task_id uid s"
  by (simp add: select_task_def get_db_connection_def)

lemma select_task_not_owner:
  assumes "distinct (map t_id (tasks s))" and "t \<in> set (tasks s)" and "uid \<noteq> t_user_id t"
  shows "select_task (t_id t) uid s = None"
proof -
  have "r = t" if "r \<in> set (tasks s)" and "t_id r = t_id t" for r
    using assms(1,2) that by (meson distinct_map inj_onD)
  then show ?thesis
    using assms(3) by (auto simp: select_task_def find_None_iff)
qed

lemma select_task_absent:
  assumes "list_all (\<lambda>r. t_id r \<noteq> task_id) (tasks s)"
  shows "select_task task_id uid s = None"
  using assms by (auto simp: select_task_def find_None_iff list_all_iff)

lemma get_task_none:
  "select_task task_id (u_id cu) s = None \<Longrightarrow> get_task task_id cu s = (Inl not_found, s)"
  by (simp add: get_task_def select_task_connection conn_roundtrip)

lemma update_task_none:
  "select_task task_id (u_id cu) s = None \<Longrightarrow>
     update_task task_id upd cu now s = (Inl not_found, s)"
  by (simp add: update_task_def select_task_connection conn_roundtrip)

lemma delete_tasks_none:
  assumes "select_task task_id uid s = None"
  shows "delete_tasks task_id uid s = (None, s)"
proof -
  have "\<forall>t\<in>set (tasks s). \<not> (t_id t = task_id \<and> t_user_id t = uid)"
    using assms by (simp add: select_task_def find_None_iff)
  then have "filter (\<lambda>t. \<not> (t_id t = task_id \<and> t_user_id t = uid)) (tasks s) = tasks s"
    by (simp add: filter_id_conv)
  moreover have "find (\<lambda>t. t_id t = task_id \<and> t_user_id t = uid) (tasks s) = None"
    using assms by (simp add: select_task_def)
  ultimately show ?thesis
    unfolding delete_tasks_def Let_def by simp
qed

lemma delete_task_none:
  assumes "select_task task_id (u_id cu) s = None"
  shows "delete_task task_id cu s = (Inl not_found, s)"
proof -
  have "delete_tasks task_id (u_id cu) (get_db_connection s) = (None, get_db_connection s)"
    using assms by (intro delete_tasks_none) (simp add: select_task_connection)
  then show ?thesis
    by (simp add: delete_task_def Let_def conn_roundtrip)
qed

subsection \<open>Ownership\<close>

text \<open>
  C1. Task ids are unique (the primary key). For a task \<open>t\<close> of the table and a caller
  whose id is not the owner's, \<open>get_task\<close>, \<open>update_task\<close> and \<open>delete_task\<close> on the
  id of \<open>t\<close> raise the 404 "Task not found" and leave the state as it was, which is
  exactly what they do on an id that no row has.
\<close>

theorem unowned_task_is_not_found:
  assumes "distinct (map t_id (tasks s))"
    and "t \<in> set (tasks s)"
    and "u_id current_user \<noteq> t_user_id t"
    and "list_all (\<lambda>r. t_id r \<noteq> absent) (tasks s)"
  shows "get_task (t_id t) current_user s = (Inl not_found, s)
       \<and> get_task absent current_user s = (Inl not_found, s)
       \<and> update_task (t_id t) task_update current_user now s = (Inl not_found, s)
       \<and> update_task absent task_update current_user now s = (Inl not_found, s)
       \<and> delete_task (t_id t) current_user s = (Inl not_found, s)
       \<and> delete_task absent current_user s = (Inl not_found, s)"
proof -
  have a: "select_task (t_id t) (u_id current_user) s = None"
    using assms(1-3) by (rule select_task_not_owner)
  have b: "select_task absent (u_id current_user) s = None"
    using assms(4) by (rule select_task_absent)
  show ?thesis
    using a b by (simp add: get_task_none update_task_none delete_task_none)
qed

theorem unowned_task_is_not_found_witness:
  "distinct (map t_id (tasks store)) \<and> report \<in> set (tasks store)
   \<and> u_id bob \<noteq> t_user_id report \<and> list_all (\<lambda>r. t_id r \<noteq> 7) (tasks store)
   \<and> get_task 1 bob store = (Inl not_found, store)
   \<and> get_task 7 bob store = (Inl not_found, store)
   \<and> update_task 1 \<lparr>tu_title = Some ''mine'', tu_description = None, tu_priority = None,
         tu_status = None, tu_due_date = None\<rparr> bob 40 store = (Inl not_found, store)
   \<and> update_task 7 \<lparr>tu_title = Some ''mine'', tu_description = None, tu_priority = None,
         tu_status = None, tu_due_date = None\<rparr> bob 40 store = (Inl not_found, store)
   \<and> delete_task 1 bob store = (Inl not_found, store)
   \<and> delete_task 7 bob store = (Inl not_found, store)"
proof -
  have h1: "distinct (map t_id (tasks store))"
    by (simp add: store_def report_def groceries_def)
  have h2: "report \<in> set (tasks store)"
    by (simp add: store_def)
  have h3: "u_id bob \<noteq> t_user_id report"
    by (simp add: bob_def report_def)
  have h4: "list_all (\<lambda>r. t_id r \<noteq> 7) (tasks store)"
    by (simp add: store_def report_def groceries_def)
  have id1: "t_id report = 1"
    by (simp add: report_def)
  show ?thesis
    using h1 h2 h3 h4
      unowned_task_is_not_found [OF h1 h2 h3 h4,
        of "\<lparr>tu_title = Some ''mine'', tu_description = None, tu_priority = None,
             tu_status = None, tu_due_date = None\<rparr>" 40]
    by (simp add: id1)
qed

subsection \<open>Partial update\<close>

lemma varchar_fits: "length v \<le> n \<Longrightarrow> varchar n v = Inr v"
  by (simp add: varchar_def)

lemma varchar_opt_fits: "fits n v \<Longrightarrow> varchar_opt n v = Inr v"
  by (cases v) (simp_all add: fits_def varchar_opt_def varchar_fits)

lemma set_clause_key:
  "t_id (set_clause v now t) = t_id t" "t_user_id (set_clause v now t) = t_user_id t"
  by (simp_all add: set_clause_def)

lemma find_map_update:
  assumes "\<And>x. P (f x) = P x"
  shows "find P (map (\<lambda>x. if P x then f x else x) xs) = map_option f (find P xs)"
  using assms by (induction xs) auto

lemma refused_given:
  "refused (given a @ given b @ given c @ given d)
     = (\<not> (nul_free a \<and> nul_free b \<and> nul_free c \<and> nul_free d))"
  by (cases a; cases b; cases c; cases d) (simp_all add: refused_def given_def nul_free_def)

lemma storable_sent:
  assumes "storable v"
  shows "\<not> refused (given (tu_title v) @ given (tu_description v) @ given (tu_priority v)
                    @ given (tu_status v))"
    and "varchar_opt 255 (tu_title v) = Inr (tu_title v)"
    and "varchar_opt 20 (tu_priority v) = Inr (tu_priority v)"
    and "varchar_opt 20 (tu_status v) = Inr (tu_status v)"
  using assms by (simp_all add: storable_def refused_given varchar_opt_fits)

lemma update_tasks_fits:
  assumes "storable v"
  shows "update_tasks v task_id uid now s =
           Inr (map_option (set_clause v now) (select_task task_id uid s),
                s\<lparr>tasks := map (\<lambda>t. if t_id t = task_id \<and> t_user_id t = uid
                                      then set_clause v now t else t) (tasks s)\<rparr>)"
proof -
  have "find (\<lambda>t. t_id t = task_id \<and> t_user_id t = uid)
          (map (\<lambda>t. if t_id t = task_id \<and> t_user_id t = uid then set_clause v now t else t)
             (tasks s))
        = map_option (set_clause v now) (find (\<lambda>t. t_id t = task_id \<and> t_user_id t = uid) (tasks s))"
    by (rule find_map_update) (simp add: set_clause_key)
  then show ?thesis
    by (simp add: update_tasks_def storable_sent [OF assms] Let_def select_task_def)
qed

lemma update_task_fits:
  assumes "select_task task_id (u_id cu) s = Some t" and "storable v"
  shows "update_task task_id v cu now s =
           (Inr (set_clause v now t),
            s\<lparr>tasks := map (\<lambda>r. if t_id r = task_id \<and> t_user_id r = u_id cu
                                  then set_clause v now r else r) (tasks s)\<rparr>)"
proof -
  let ?s1 = "get_db_connection s"
  have sel: "select_task task_id (u_id cu) ?s1 = Some t"
    using assms(1) by (simp add: select_task_connection)
  have upd: "update_tasks v task_id (u_id cu) now ?s1 =
      Inr (Some (set_clause v now t),
           ?s1\<lparr>tasks := map (\<lambda>r. if t_id r = task_id \<and> t_user_id r = u_id cu
                                  then set_clause v now r else r) (tasks ?s1)\<rparr>)"
    using update_tasks_fits[OF assms(2), of task_id "u_id cu" now ?s1] sel by simp
  show ?thesis
    unfolding update_task_def Let_def sel upd
    by (simp add: conn_close_def get_db_connection_def)
qed

lemma select_task_Some:
  assumes "select_task task_id uid s = Some t"
  shows "t \<in> set (tasks s)" "t_id t = task_id" "t_user_id t = uid"
  using assms unfolding select_task_def
  by (auto simp: find_Some_iff)

lemma pk_hit:
  assumes "distinct (map t_id (tasks s))" and "t \<in> set (tasks s)" and "r \<in> set (tasks s)"
  shows "(t_id r = t_id t \<and> t_user_id r = t_user_id t) = (r = t)"
  using assms by (metis distinct_map inj_onD)

lemma select_report: "select_task 1 (u_id alice) store = Some report"
  by (simp add: select_task_def store_def alice_def report_def)

lemma storable_only_status: "length x \<le> 20 \<Longrightarrow> \<not> has_nul x \<Longrightarrow> storable (only_status x)"
  by (simp add: storable_def only_status_def nul_free_def fits_def)

lemma has_nul_literal:
  "\<not> has_nul ''completed''" "\<not> has_nul ''archived''" "\<not> has_nul ''someday''"
  "\<not> has_nul ''urgent''" "\<not> has_nul ''deploy''" "\<not> has_nul ''pending''"
  "\<not> has_nul ''high''" "has_nul nul_title" "\<not> has_nul long_title"
  by (simp_all add: has_nul_def nul_title_def long_title_def)

text \<open>
  C2, as stated, fails where a supplied value cannot be stored. The title column is
  \<^verbatim>\<open>VARCHAR(255)\<close>, and an update of an owned task with a title of 256 characters
  raises in the \<^verbatim>\<open>UPDATE\<close>. The driver refuses a string with a NUL character, and
  an update of an owned task with such a title raises before the \<^verbatim>\<open>UPDATE\<close> is
  sent. In both cases no field is applied and \<open>updated_at\<close> is not refreshed.
\<close>

theorem update_task_overlong_title_counterexample:
  "select_task 1 (u_id alice) store = Some report
   \<and> update_task 1 (only_title long_title) alice 40 store
       = (Inl StringDataRightTruncation, store\<lparr>open_connections := 1\<rparr>)
   \<and> update_task 1 (only_title nul_title) alice 40 store
       = (Inl ValueError, store\<lparr>open_connections := 1\<rparr>)"
proof -
  have "varchar 255 long_title = Inl StringDataRightTruncation"
    by (simp add: varchar_def long_title_def)
  then have upd: "update_tasks (only_title long_title) 1 (u_id alice) 40
      (get_db_connection store) = Inl StringDataRightTruncation"
    by (simp add: update_tasks_def only_title_def varchar_opt_def refused_def given_def
        has_nul_literal)
  have nul: "update_tasks (only_title nul_title) 1 (u_id alice) 40
      (get_db_connection store) = Inl ValueError"
    by (simp add: update_tasks_def only_title_def refused_def given_def has_nul_literal)
  have sel: "select_task 1 (u_id alice) (get_db_connection store) = Some report"
    using select_report by (simp add: select_task_connection)
  have "update_task 1 (only_title long_title) alice 40 store
      = (Inl StringDataRightTruncation, get_db_connection store)"
    unfolding update_task_def Let_def sel upd by simp
  moreover have "update_task 1 (only_title nul_title) alice 40 store
      = (Inl ValueError, get_db_connection store)"
    unfolding update_task_def Let_def sel nul by simp
  ultimately show ?thesis
    using select_report by (simp add: get_db_connection_def store_def)
qed

text \<open>
  C2, amended. For an existing task owned by the caller and an update that can be stored
  (no supplied string contains the NUL character, a supplied title has at most 255
  characters, a supplied priority and status at most 20), \<open>update_task\<close> returns the
  row with exactly the supplied fields (those that are not \<open>None\<close>) replaced, every
  other field as it was and \<open>updated_at\<close> set to the current instant; the stored row is
  replaced by it and no other row changes. An update supplying only a status leaves
  title, description, priority and due date as they were; an update supplying nothing
  returns the row with only \<open>updated_at\<close> changed.
\<close>

theorem update_task_applies_supplied_fields:
  assumes "distinct (map t_id (tasks s))"
    and "select_task task_id (u_id current_user) s = Some t"
    and "storable v"
  shows "\<exists>t'. update_task task_id v current_user now s =
                 (Inr t', s\<lparr>tasks := map (\<lambda>r. if r = t then t' else r) (tasks s)\<rparr>)
            \<and> t_title t' = (case tu_title v of None \<Rightarrow> t_title t | Some x \<Rightarrow> x)
            \<and> t_description t' =
                (case tu_description v of None \<Rightarrow> t_description t | Some x \<Rightarrow> Some x)
            \<and> t_priority t' = (case tu_priority v of None \<Rightarrow> t_priority t | Some x \<Rightarrow> x)
            \<and> t_status t' = (case tu_status v of None \<Rightarrow> t_status t | Some x \<Rightarrow> x)
            \<and> t_due_date t' = (case tu_due_date v of None \<Rightarrow> t_due_date t | Some x \<Rightarrow> Some x)
            \<and> t_updated_at t' = now
            \<and> t_id t' = t_id t \<and> t_user_id t' = t_user_id t
            \<and> t_created_at t' = t_created_at t
            \<and> (tu_title v = None \<and> tu_description v = None \<and> tu_priority v = None
                 \<and> tu_due_date v = None
                \<longrightarrow> t_title t' = t_title t \<and> t_description t' = t_description t
                    \<and> t_priority t' = t_priority t \<and> t_due_date t' = t_due_date t)
            \<and> (tu_title v = None \<and> tu_description v = None \<and> tu_priority v = None
                 \<and> tu_status v = None \<and> tu_due_date v = None
                \<longrightarrow> t' = t\<lparr>t_updated_at := now\<rparr>)"
proof -
  note sel = select_task_Some[OF assms(2)]
  have "map (\<lambda>r. if t_id r = task_id \<and> t_user_id r = u_id current_user
                  then set_clause v now r else r) (tasks s)
        = map (\<lambda>r. if r = t then set_clause v now t else r) (tasks s)"
    using pk_hit[OF assms(1) sel(1)] sel(2,3) by (intro map_cong) auto
  then have "update_task task_id v current_user now s =
      (Inr (set_clause v now t),
       s\<lparr>tasks := map (\<lambda>r. if r = t then set_clause v now t else r) (tasks s)\<rparr>)"
    using update_task_fits[OF assms(2,3), of now] by simp
  then show ?thesis
    by (intro exI[of _ "set_clause v now t"]) (auto simp: set_clause_def)
qed

theorem update_task_applies_supplied_fields_witness:
  "distinct (map t_id (tasks store))
   \<and> select_task 1 (u_id alice) store = Some report
   \<and> storable (only_status ''completed'')
   \<and> (\<exists>t'. update_task 1 (only_status ''completed'') alice 40 store
              = (Inr t', store\<lparr>tasks := [t', groceries]\<rparr>)
          \<and> t_status t' = ''completed'' \<and> t_title t' = ''report''
          \<and> t_description t' = Some ''quarterly'' \<and> t_priority t' = ''high''
          \<and> t_due_date t' = Some 50 \<and> t_updated_at t' = 40)"
proof -
  have h1: "distinct (map t_id (tasks store))"
    by (simp add: store_def report_def groceries_def)
  have h3: "storable (only_status ''completed'')"
    by (rule storable_only_status) (simp_all add: has_nul_literal)
  have ne: "groceries \<noteq> report"
    by (simp add: groceries_def report_def)
  from update_task_applies_supplied_fields [OF h1 select_report h3, of 40]
  obtain t' where everything:
    "update_task 1 (only_status ''completed'') alice 40 store
          = (Inr t', store\<lparr>tasks := map (\<lambda>r. if r = report then t' else r) (tasks store)\<rparr>)
       \<and> t_title t' = (case tu_title (only_status ''completed'') of
                             None \<Rightarrow> t_title report | Some x \<Rightarrow> x)
       \<and> t_description t' = (case tu_description (only_status ''completed'') of
                             None \<Rightarrow> t_description report | Some x \<Rightarrow> Some x)
       \<and> t_priority t' = (case tu_priority (only_status ''completed'') of
                             None \<Rightarrow> t_priority report | Some x \<Rightarrow> x)
       \<and> t_status t' = (case tu_status (only_status ''completed'') of
                             None \<Rightarrow> t_status report | Some x \<Rightarrow> x)
       \<and> t_due_date t' = (case tu_due_date (only_status ''completed'') of
                             None \<Rightarrow> t_due_date report | Some x \<Rightarrow> Some x)
       \<and> t_updated_at t' = 40
       \<and> t_id t' = t_id report \<and> t_user_id t' = t_user_id report
       \<and> t_created_at t' = t_created_at report
       \<and> (tu_title (only_status ''completed'') = None
            \<and> tu_description (only_status ''completed'') = None
            \<and> tu_priority (only_status ''completed'') = None
            \<and> tu_due_date (only_status ''completed'') = None
          \<longrightarrow> t_title t' = t_title report \<and> t_description t' = t_description report
              \<and> t_priority t' = t_priority report \<and> t_due_date t' = t_due_date report)
       \<and> (tu_title (only_status ''completed'') = None
            \<and> tu_description (only_status ''completed'') = None
            \<and> tu_priority (only_status ''completed'') = None
            \<and> tu_status (only_status ''completed'') = None
            \<and> tu_due_date (only_status ''completed'') = None
          \<longrightarrow> t' = report\<lparr>t_updated_at := 40\<rparr>)"
    ..
  have "map (\<lambda>r. if r = report then t' else r) (tasks store) = [t', groceries]"
    using ne by (simp add: store_def)
  with everything have "update_task 1 (only_status ''completed'') alice 40 store
      = (Inr t', store\<lparr>tasks := [t', groceries]\<rparr>)"
    by simp
  moreover have "t_status t' = ''completed''" "t_title t' = ''report''"
    "t_description t' = Some ''quarterly''" "t_priority t' = ''high''"
    "t_due_date t' = Some 50" "t_updated_at t' = 40"
    using everything by (simp_all add: only_status_def report_def)
  ultimately have "\<exists>t'. update_task 1 (only_status ''completed'') alice 40 store
              = (Inr t', store\<lparr>tasks := [t', groceries]\<rparr>)
          \<and> t_status t' = ''completed'' \<and> t_title t' = ''report''
          \<and> t_description t' = Some ''quarterly'' \<and> t_priority t' = ''high''
          \<and> t_due_date t' = Some 50 \<and> t_updated_at t' = 40"
    by (intro exI [of _ t']) simp
  with h1 select_report h3 show ?thesis
    by (intro conjI)
qed

subsection \<open>Null fields in an update\<close>

lemma optional_Null: "optional Null = optional Omitted"
  by (simp add: optional_def)

lemma parse_TaskUpdate_null:
  "parse_TaskUpdate (b\<lparr>bu_title := Null\<rparr>) = parse_TaskUpdate (b\<lparr>bu_title := Omitted\<rparr>)"
  "parse_TaskUpdate (b\<lparr>bu_description := Null\<rparr>) = parse_TaskUpdate (b\<lparr>bu_description := Omitted\<rparr>)"
  "parse_TaskUpdate (b\<lparr>bu_priority := Null\<rparr>) = parse_TaskUpdate (b\<lparr>bu_priority := Omitted\<rparr>)"
  "parse_TaskUpdate (b\<lparr>bu_status := Null\<rparr>) = parse_TaskUpdate (b\<lparr>bu_status := Omitted\<rparr>)"
  "parse_TaskUpdate (b\<lparr>bu_due_date := Null\<rparr>) = parse_TaskUpdate (b\<lparr>bu_due_date := Omitted\<rparr>)"
  by (simp_all add: parse_TaskUpdate_def optional_Null)

lemma keeps_optionals_refl: "keeps_optionals r r"
  by (auto simp: keeps_optionals_def)

lemma keeps_optionals_set_clause: "keeps_optionals r (set_clause v now r)"
  by (auto simp: keeps_optionals_def set_clause_def split: option.splits)

lemma list_all2_keeps_refl: "list_all2 keeps_optionals xs xs"
  by (simp add: list_all2_same keeps_optionals_refl)

lemma update_tasks_keeps:
  assumes "update_tasks v task_id uid now s = Inr (r, s')"
  shows "list_all2 keeps_optionals (tasks s) (tasks s')"
    and "\<And>t t'. select_task task_id uid s = Some t \<Longrightarrow> r = Some t' \<Longrightarrow> keeps_optionals t t'"
proof -
  obtain v' where s': "s' = s\<lparr>tasks := map (\<lambda>t. if t_id t = task_id \<and> t_user_id t = uid
                                      then set_clause v' now t else t) (tasks s)\<rparr>"
    and r: "r = find (\<lambda>t. t_id t = task_id \<and> t_user_id t = uid)
                 (map (\<lambda>t. if t_id t = task_id \<and> t_user_id t = uid
                                      then set_clause v' now t else t) (tasks s))"
    using assms by (auto simp: update_tasks_def Let_def split: sum.splits if_splits)
  show "list_all2 keeps_optionals (tasks s) (tasks s')"
    unfolding s' by (simp add: list_all2_map2 list_all2_same keeps_optionals_refl
        keeps_optionals_set_clause)
  have "r = map_option (set_clause v' now) (select_task task_id uid s)"
    unfolding r select_task_def by (rule find_map_update) (simp add: set_clause_key)
  then show "\<And>t t'. select_task task_id uid s = Some t \<Longrightarrow> r = Some t' \<Longrightarrow> keeps_optionals t t'"
    by (auto simp: keeps_optionals_set_clause)
qed

lemma update_task_keeps:
  "list_all2 keeps_optionals (tasks s) (tasks (snd (update_task task_id v cu now s)))"
proof (cases "select_task task_id (u_id cu) s")
  case None
  then show ?thesis by (simp add: update_task_none list_all2_keeps_refl)
next
  case (Some t)
  then have sel: "select_task task_id (u_id cu) (get_db_connection s) = Some t"
    by (simp add: select_task_connection)
  show ?thesis
  proof (cases "update_tasks v task_id (u_id cu) now (get_db_connection s)")
    case (Inl e)
    then show ?thesis
      unfolding update_task_def Let_def sel
      by (simp add: tasks_get_db_connection list_all2_keeps_refl)
  next
    case (Inr p)
    obtain r s2 where p: "p = (r, s2)" by (cases p)
    have "list_all2 keeps_optionals (tasks s) (tasks s2)"
      using update_tasks_keeps(1)[of v task_id "u_id cu" now "get_db_connection s" r s2] Inr p
      by (simp add: tasks_get_db_connection)
    then show ?thesis
      unfolding update_task_def Let_def sel Inr p
      by (cases r) (simp_all add: conn_close_def)
  qed
qed

lemma update_task_returns_kept:
  assumes "select_task task_id (u_id cu) s = Some t"
    and "fst (update_task task_id v cu now s) = Inr t'"
  shows "keeps_optionals t t'"
proof -
  have sel: "select_task task_id (u_id cu) (get_db_connection s) = Some t"
    using assms(1) by (simp add: select_task_connection)
  show ?thesis
  proof (cases "update_tasks v task_id (u_id cu) now (get_db_connection s)")
    case (Inl e)
    then show ?thesis
      using assms(2) unfolding update_task_def Let_def sel by simp
  next
    case (Inr p)
    obtain r s2 where p: "p = (r, s2)" by (cases p)
    have "r = Some t'"
      using assms(2) unfolding update_task_def Let_def sel Inr p
      by (cases r) simp_all
    then show ?thesis
      using update_tasks_keeps(2)[of v task_id "u_id cu" now "get_db_connection s" r s2 t t'] Inr p sel
      by simp
  qed
qed

text \<open>
  C10. In the body of an update, a field that is \<^verbatim>\<open>null\<close> has the effect of a field
  that is absent, for each of title, description, priority, status and due date: the
  response and the resulting state are the same. Consequently no update turns a
  description or a due date that is set into \<^verbatim>\<open>NULL\<close>: not in any row of the table,
  and not in the row that is returned.
\<close>

theorem null_field_is_omitted_field:
  "put_task task_id (b\<lparr>bu_title := Null\<rparr>) cu now s
     = put_task task_id (b\<lparr>bu_title := Omitted\<rparr>) cu now s
   \<and> put_task task_id (b\<lparr>bu_description := Null\<rparr>) cu now s
     = put_task task_id (b\<lparr>bu_description := Omitted\<rparr>) cu now s
   \<and> put_task task_id (b\<lparr>bu_priority := Null\<rparr>) cu now s
     = put_task task_id (b\<lparr>bu_priority := Omitted\<rparr>) cu now s
   \<and> put_task task_id (b\<lparr>bu_status := Null\<rparr>) cu now s
     = put_task task_id (b\<lparr>bu_status := Omitted\<rparr>) cu now s
   \<and> put_task task_id (b\<lparr>bu_due_date := Null\<rparr>) cu now s
     = put_task task_id (b\<lparr>bu_due_date := Omitted\<rparr>) cu now s
   \<and> list_all2 (\<lambda>r r'. (t_description r \<noteq> None \<longrightarrow> t_description r' \<noteq> None)
                      \<and> (t_due_date r \<noteq> None \<longrightarrow> t_due_date r' \<noteq> None))
        (tasks s) (tasks (snd (put_task task_id b cu now s)))
   \<and> (\<forall>t t'. select_task task_id (u_id cu) s = Some t
             \<longrightarrow> fst (put_task task_id b cu now s) = Inr t'
             \<longrightarrow> (t_description t \<noteq> None \<longrightarrow> t_description t' \<noteq> None)
                 \<and> (t_due_date t \<noteq> None \<longrightarrow> t_due_date t' \<noteq> None))"
proof -
  have k: "keeps_optionals = (\<lambda>r r'. (t_description r \<noteq> None \<longrightarrow> t_description r' \<noteq> None)
                      \<and> (t_due_date r \<noteq> None \<longrightarrow> t_due_date r' \<noteq> None))"
    by (auto simp: keeps_optionals_def fun_eq_iff)
  have put: "put_task task_id b' cu now s =
      update_task task_id \<lparr>tu_title = optional (bu_title b'),
        tu_description = optional (bu_description b'), tu_priority = optional (bu_priority b'),
        tu_status = optional (bu_status b'), tu_due_date = optional (bu_due_date b')\<rparr> cu now s"
    for b' by (simp add: put_task_def parse_TaskUpdate_def)
  have 1: "list_all2 keeps_optionals (tasks s) (tasks (snd (put_task task_id b cu now s)))"
    unfolding put by (rule update_task_keeps)
  have 2: "keeps_optionals t t'"
    if "select_task task_id (u_id cu) s = Some t" "fst (put_task task_id b cu now s) = Inr t'"
    for t t'
    using that unfolding put by (rule update_task_returns_kept)
  have 3: "(t_description t \<noteq> None \<longrightarrow> t_description t' \<noteq> None)
                 \<and> (t_due_date t \<noteq> None \<longrightarrow> t_due_date t' \<noteq> None)"
    if "select_task task_id (u_id cu) s = Some t" "fst (put_task task_id b cu now s) = Inr t'"
    for t t'
    using 2[OF that] by (auto simp: keeps_optionals_def)
  show ?thesis
    using 1 3 unfolding k
    by (simp add: put_task_def parse_TaskUpdate_null)
qed


theorem null_field_is_omitted_field_witness:
  "put_task 1 (no_fields\<lparr>bu_description := Null\<rparr>) alice 40 store
     = put_task 1 (no_fields\<lparr>bu_description := Omitted\<rparr>) alice 40 store
   \<and> select_task 1 (u_id alice) store = Some report
   \<and> fst (put_task 1 (no_fields\<lparr>bu_description := Null, bu_due_date := Null\<rparr>) alice 40 store)
       = Inr (report\<lparr>t_updated_at := 40\<rparr>)
   \<and> t_description report \<noteq> None \<and> t_due_date report \<noteq> None
   \<and> t_description (report\<lparr>t_updated_at := 40\<rparr>) \<noteq> None
   \<and> t_due_date (report\<lparr>t_updated_at := 40\<rparr>) \<noteq> None"
proof -
  let ?b = "no_fields\<lparr>bu_description := Null, bu_due_date := Null\<rparr>"
  let ?v = "\<lparr>tu_title = None, tu_description = None, tu_priority = None,
             tu_status = None, tu_due_date = None\<rparr>"
  have "put_task 1 ?b alice 40 store = update_task 1 ?v alice 40 store"
    by (simp add: put_task_def parse_TaskUpdate_def no_fields_def optional_def)
  also have "fst \<dots> = Inr (set_clause ?v 40 report)"
    using update_task_fits [OF select_report, of ?v 40]
    by (simp add: storable_def fits_def nul_free_def)
  also have "set_clause ?v 40 report = report\<lparr>t_updated_at := 40\<rparr>"
    by (simp add: set_clause_def)
  finally have r: "fst (put_task 1 ?b alice 40 store) = Inr (report\<lparr>t_updated_at := 40\<rparr>)" .
  have d: "t_description report \<noteq> None" "t_due_date report \<noteq> None"
    by (simp_all add: report_def)
  note inst = null_field_is_omitted_field [of 1 no_fields alice 40 store]
  note inst' = null_field_is_omitted_field [of 1 ?b alice 40 store]
  have "t_description (report\<lparr>t_updated_at := 40\<rparr>) \<noteq> None
      \<and> t_due_date (report\<lparr>t_updated_at := 40\<rparr>) \<noteq> None"
    using inst' select_report r d by blast
  then show ?thesis
    using inst select_report r d by blast
qed

subsection \<open>Statistics\<close>

lemma sum_case_when: "sum_list (map (\<lambda>t. case_when (Some (P t))) rows) = int (length (filter P rows))"
  by (induction rows) (simp_all add: case_when_def)

lemma sql_sum_case_when:
  "rows \<noteq> [] \<Longrightarrow> sql_sum (map (\<lambda>t. case_when (Some (P t))) rows) = Some (int (length (filter P rows)))"
  by (simp add: sql_sum_def sum_case_when)

lemma overdue_case_when:
  "case_when (sql_and (sql_lt (t_due_date t) (Some now)) (Some (t_status t \<noteq> ''completed'')))
     = (if is_overdue now t then 1 else 0)"
  by (cases "t_due_date t") (auto simp: case_when_def sql_and_def sql_lt_def is_overdue_def)

lemma sum_overdue:
  "sum_list (map (\<lambda>t. case_when (sql_and (sql_lt (t_due_date t) (Some now))
                                  (Some (t_status t \<noteq> ''completed'')))) rows)
     = int (length (filter (is_overdue now) rows))"
  by (induction rows) (simp_all add: overdue_case_when)

lemma select_stats_connection:
  "select_stats uid now (get_db_connection s) = select_stats uid now s"
  by (simp add: select_stats_def get_db_connection_def)

lemma get_task_statistics_eq:
  "get_task_statistics cu now s = (Inr (select_stats (u_id cu) now s), s)"
  by (simp add: get_task_statistics_def Let_def conn_roundtrip select_stats_connection)

lemma status_partition:
  "list_all known_status rows \<Longrightarrow>
     length (filter (\<lambda>t. t_status t = ''pending'') rows)
     + length (filter (\<lambda>t. t_status t = ''in_progress'') rows)
     + length (filter (\<lambda>t. t_status t = ''completed'') rows) = length rows"
  by (induction rows) (auto simp: known_status_def)

text \<open>
  For a user with at least one task, all of whose tasks have a status among pending,
  in\_progress and completed, the three status counts add up to \<open>total_tasks\<close>.
\<close>

lemma status_counts_add_up:
  assumes "tasks_of current_user s \<noteq> []"
    and "list_all known_status (tasks_of current_user s)"
  shows "\<exists>st p i c. get_task_statistics current_user now s = (Inr st, s)
           \<and> pending st = Some p \<and> in_progress st = Some i \<and> completed st = Some c
           \<and> p + i + c = total_tasks st
           \<and> total_tasks st = int (length (tasks_of current_user s))
           \<and> p = int (length (filter (\<lambda>t. t_status t = ''pending'') (tasks_of current_user s)))
           \<and> i = int (length (filter (\<lambda>t. t_status t = ''in_progress'') (tasks_of current_user s)))
           \<and> c = int (length (filter (\<lambda>t. t_status t = ''completed'') (tasks_of current_user s)))"
proof -
  let ?rows = "tasks_of current_user s"
  let ?st = "select_stats (u_id current_user) now s"
  have rows: "filter (\<lambda>t. t_user_id t = u_id current_user) (tasks s) = ?rows"
    by (simp add: tasks_of_def)
  have p: "pending ?st = Some (int (length (filter (\<lambda>t. t_status t = ''pending'') ?rows)))"
    and i: "in_progress ?st = Some (int (length (filter (\<lambda>t. t_status t = ''in_progress'') ?rows)))"
    and c: "completed ?st = Some (int (length (filter (\<lambda>t. t_status t = ''completed'') ?rows)))"
    and n: "total_tasks ?st = int (length ?rows)"
    using assms(1) unfolding select_stats_def Let_def rows
    by (simp_all add: sql_sum_case_when sql_count_def)
  have "int (length (filter (\<lambda>t. t_status t = ''pending'') ?rows))
        + int (length (filter (\<lambda>t. t_status t = ''in_progress'') ?rows))
        + int (length (filter (\<lambda>t. t_status t = ''completed'') ?rows)) = int (length ?rows)"
    using status_partition[OF assms(2)] by linarith
  then show ?thesis
    using p i c n get_task_statistics_eq[of current_user now s] by auto
qed

text \<open>
  C3. The three status counts do not always add up to \<open>total_tasks\<close>. For a user
  without tasks, the case the claim names, the query runs over no rows: \<open>total_tasks\<close>
  is 0 and each of the three counts is \<^verbatim>\<open>NULL\<close>, not 0. And no handler holds a
  status to the values that the comment on \<open>TaskUpdate.status\<close> lists: an update
  stores the status \<open>archived\<close>, and that task is counted in \<open>total_tasks\<close> and in
  none of the three counts.
\<close>

theorem status_counts_do_not_add_up:
  "tasks_of bob store = []
   \<and> get_task_statistics bob 41 store =
       (Inr \<lparr>total_tasks = 0, completed = None, in_progress = None, pending = None,
             high_priority = None, overdue = None\<rparr>, store)
   \<and> update_task 1 (only_status ''archived'') alice 40 store
     = (Inr (report\<lparr>t_status := ''archived'', t_updated_at := 40\<rparr>), archive)
   \<and> get_task_statistics alice 41 archive =
       (Inr \<lparr>total_tasks = 2, completed = Some 1, in_progress = Some 0, pending = Some 0,
             high_priority = Some 1, overdue = Some 0\<rparr>, archive)"
proof -
  have none: "tasks_of bob store = []
   \<and> get_task_statistics bob 41 store =
       (Inr \<lparr>total_tasks = 0, completed = None, in_progress = None, pending = None,
             high_priority = None, overdue = None\<rparr>, store)"
    by (simp add: get_task_statistics_eq select_stats_def tasks_of_def sql_sum_def
        sql_count_def store_def bob_def report_def groceries_def)
  have "update_task 1 (only_status ''archived'') alice 40 store
     = (Inr (report\<lparr>t_status := ''archived'', t_updated_at := 40\<rparr>), archive)"
    using update_task_fits [OF select_report, of "only_status ''archived''" 40]
      storable_only_status [of "''archived''"]
    by (simp add: has_nul_literal only_status_def set_clause_def archive_def store_def
        alice_def report_def groceries_def)
  moreover have "get_task_statistics alice 41 archive =
       (Inr \<lparr>total_tasks = 2, completed = Some 1, in_progress = Some 0, pending = Some 0,
             high_priority = Some 1, overdue = Some 0\<rparr>, archive)"
    by (simp add: get_task_statistics_eq select_stats_def sql_sum_def sql_count_def
        case_when_def sql_and_def sql_lt_def archive_def store_def alice_def report_def
        groceries_def)
  ultimately show ?thesis
    using none by simp
qed

text \<open>
  The overdue aggregate over a user's tasks, when there is at least one: the number of
  tasks with a due date strictly before the current instant and a status other than
  completed. A task without a due date contributes 0.
\<close>

lemma overdue_counts_late_open_tasks:
  assumes "tasks_of current_user s \<noteq> []"
  shows "overdue (select_stats (u_id current_user) now s)
           = Some (int (length (filter (is_overdue now) (tasks_of current_user s))))"
  using assms unfolding select_stats_def Let_def tasks_of_def
  by (simp add: sql_sum_def sum_overdue)

lemma no_due_date_not_overdue:
  "t_due_date t = None \<Longrightarrow>
     case_when (sql_and (sql_lt (t_due_date t) (Some now)) (Some (t_status t \<noteq> ''completed''))) = 0"
  by (simp add: case_when_def sql_and_def sql_lt_def)

text \<open>
  C4. For a user without tasks the aggregate query runs over no rows: \<^verbatim>\<open>COUNT(*)\<close> is 0
  and every \<^verbatim>\<open>SUM\<close> is \<^verbatim>\<open>NULL\<close>, so the summary carries no overdue count at
  all where the number of overdue tasks is 0.
\<close>

theorem statistics_without_tasks:
  "tasks_of bob store = []
   \<and> get_task_statistics bob 40 store =
       (Inr \<lparr>total_tasks = 0, completed = None, in_progress = None, pending = None,
             high_priority = None, overdue = None\<rparr>, store)"
  by (simp add: get_task_statistics_eq select_stats_def tasks_of_def sql_sum_def sql_count_def
      store_def bob_def report_def groceries_def)

subsection \<open>Priority and status values\<close>

lemma insert_task_fits:
  assumes "length title \<le> 255" and "length priority \<le> 20"
    and "list_ex (\<lambda>u. u_id u = uid) (users s)"
    and "\<not> refused ([title] @ given description @ [priority])"
  shows "insert_task uid title description priority due_date now s =
           Inr (\<lparr>t_id = tasks_id_seq s, t_user_id = uid, t_title = title,
                  t_description = description, t_priority = priority,
                  t_status = ''pending'', t_due_date = due_date,
                  t_created_at = now, t_updated_at = now\<rparr>,
                s\<lparr>tasks := tasks s @
                    [\<lparr>t_id = tasks_id_seq s, t_user_id = uid, t_title = title,
                      t_description = description, t_priority = priority,
                      t_status = ''pending'', t_due_date = due_date,
                      t_created_at = now, t_updated_at = now\<rparr>],
                   tasks_id_seq := tasks_id_seq s + 1\<rparr>)"
  using assms by (simp add: insert_task_def varchar_fits Let_def)

lemma create_task_fits:
  assumes "length (tc_title task) \<le> 255" and "length (tc_priority task) \<le> 20"
    and "current_user \<in> set (users s)"
    and "\<not> refused ([tc_title task] @ given (tc_description task) @ [tc_priority task])"
  shows "create_task task current_user now s =
           (Inr \<lparr>t_id = tasks_id_seq s, t_user_id = u_id current_user,
                  t_title = tc_title task, t_description = tc_description task,
                  t_priority = tc_priority task, t_status = ''pending'',
                  t_due_date = tc_due_date task, t_created_at = now, t_updated_at = now\<rparr>,
            s\<lparr>tasks := tasks s @
                    [\<lparr>t_id = tasks_id_seq s, t_user_id = u_id current_user,
                      t_title = tc_title task, t_description = tc_description task,
                      t_priority = tc_priority task, t_status = ''pending'',
                      t_due_date = tc_due_date task, t_created_at = now, t_updated_at = now\<rparr>],
               tasks_id_seq := tasks_id_seq s + 1\<rparr>)"
proof -
  have "list_ex (\<lambda>u. u_id u = u_id current_user) (users (get_db_connection s))"
    using assms(3) by (auto simp: list_ex_iff get_db_connection_def)
  from insert_task_fits [OF assms(1,2) this assms(4)]
  show ?thesis
    by (simp add: create_task_def Let_def conn_close_def get_db_connection_def)
qed

text \<open>
  C5. Priority and status are not checked against the values that the comments on
  \<open>TaskCreate.priority\<close> and \<open>TaskUpdate.status\<close> list. A request to create a task
  with the priority \<open>urgent\<close> is accepted and the row is stored with it; an update of
  an owned task with the status \<open>archived\<close> is accepted and the row is changed to it.
  Neither is rejected as a validation error.
\<close>

theorem value_outside_enumeration_is_stored:
  "''urgent'' \<notin> set [''low'', ''medium'', ''high'']
   \<and> post_tasks urgent_body alice 40 store
       = (Inr deploy, store\<lparr>tasks := [report, groceries, deploy], tasks_id_seq := 4\<rparr>)
   \<and> ''archived'' \<notin> set [''pending'', ''in_progress'', ''completed'']
   \<and> put_task 1 (no_fields\<lparr>bu_status := Value ''archived''\<rparr>) alice 40 store
       = (Inr (report\<lparr>t_status := ''archived'', t_updated_at := 40\<rparr>), archive)"
proof -
  have p: "parse_TaskCreate urgent_body
           = Inr \<lparr>tc_title = ''deploy'', tc_description = None,
                  tc_priority = ''urgent'', tc_due_date = None\<rparr>"
    by (simp add: parse_TaskCreate_def urgent_body_def optional_def)
  have "alice \<in> set (users store)"
    by (simp add: store_def)
  then have "create_task \<lparr>tc_title = ''deploy'', tc_description = None,
                  tc_priority = ''urgent'', tc_due_date = None\<rparr> alice 40 store
     = (Inr deploy, store\<lparr>tasks := [report, groceries, deploy], tasks_id_seq := 4\<rparr>)"
    by (subst create_task_fits)
      (simp_all add: deploy_def store_def alice_def refused_def given_def has_nul_literal)
  then have c: "post_tasks urgent_body alice 40 store
       = (Inr deploy, store\<lparr>tasks := [report, groceries, deploy], tasks_id_seq := 4\<rparr>)"
    unfolding post_tasks_def p by simp
  have "put_task 1 (no_fields\<lparr>bu_status := Value ''archived''\<rparr>) alice 40 store
      = update_task 1 (only_status ''archived'') alice 40 store"
    by (simp add: put_task_def parse_TaskUpdate_def no_fields_def optional_def only_status_def)
  also have "\<dots> = (Inr (report\<lparr>t_status := ''archived'', t_updated_at := 40\<rparr>), archive)"
    using update_task_fits [OF select_report, of "only_status ''archived''" 40]
      storable_only_status [of "''archived''"]
    by (simp add: has_nul_literal only_status_def set_clause_def archive_def store_def
        alice_def report_def groceries_def)
  finally show ?thesis
    using c by simp
qed

subsection \<open>Listing\<close>

lemma matches_truthy: "(if truthy flt then Some v = flt else True) = matches flt v"
  by (cases flt) (auto simp: truthy_def matches_def)

lemma select_tasks_connection:
  "select_tasks status priority uid (get_db_connection s) = select_tasks status priority uid s"
  by (simp add: select_tasks_def get_db_connection_def)

lemma newest_first: "sorted_wrt (\<lambda>a b. t_created_at b \<le> t_created_at a) (order_by_created_at_desc rows)"
proof -
  have "sorted (map (\<lambda>t. - t_created_at t) (sort_key (\<lambda>t. - t_created_at t) rows))"
    by (rule sorted_sort_key)
  then show ?thesis
    by (simp add: order_by_created_at_desc_def sorted_map)
qed

lemma get_tasks_eq:
  "get_tasks status priority current_user s
     = (case select_tasks status priority (u_id current_user) s of
          Inl e \<Rightarrow> (Inl e, get_db_connection s)
        | Inr rows \<Rightarrow> (Inr rows, s))"
  by (simp add: get_tasks_def Let_def select_tasks_connection conn_roundtrip split: sum.splits)

lemma filters_sent:
  assumes "nul_free status" and "nul_free priority"
  shows "\<not> refused ((if truthy status then given status else [])
                    @ (if truthy priority then given priority else []))"
  using assms
  by (cases status; cases priority) (simp_all add: refused_def given_def nul_free_def)

lemma select_tasks_sent:
  assumes "nul_free status" and "nul_free priority"
  shows "select_tasks status priority uid s
           = Inr (order_by_created_at_desc
                   (filter (\<lambda>t. t_user_id t = uid \<and> matches status (t_status t)
                              \<and> matches priority (t_priority t)) (tasks s)))"
  using filters_sent [OF assms] by (simp add: select_tasks_def matches_truthy)

text \<open>
  C7, as stated, fails for two kinds of filter. A filter that is supplied empty:
  \<^verbatim>\<open>if status:\<close> is false for the empty string, the equality is not added to the
  query, and tasks whose status is not the empty string are returned. And a filter with
  a NUL character: the driver refuses the parameter, and the request ends in
  \<open>ValueError\<close> with no list at all.
\<close>

theorem empty_status_filter_counterexample:
  "get_tasks (Some '''') None alice store = (Inr [groceries, report], store)
   \<and> t_status groceries \<noteq> '''' \<and> t_status report \<noteq> ''''
   \<and> get_tasks (Some nul_title) None alice store
       = (Inl ValueError, store\<lparr>open_connections := 1\<rparr>)"
proof -
  have "select_tasks (Some '''') None (u_id alice) store = Inr [groceries, report]"
    by (simp add: select_tasks_def order_by_created_at_desc_def truthy_def store_def
        alice_def report_def groceries_def refused_def)
  moreover have "select_tasks (Some nul_title) None (u_id alice) store = Inl ValueError"
    using has_nul_literal(8)
    by (simp add: select_tasks_def truthy_def refused_def given_def nul_title_def)
  ultimately show ?thesis
    by (simp add: get_tasks_eq report_def groceries_def get_db_connection_def store_def)
qed

text \<open>
  C7, amended. For every user and every combination of status and priority filters
  without a NUL character, \<open>get_tasks\<close> returns exactly that user's tasks that satisfy
  every filter that is supplied and not the empty string (both of them when both are),
  newest created first, and leaves the state as it was.
\<close>

theorem get_tasks_filters_newest_first:
  assumes "nul_free status" and "nul_free priority"
  shows "\<exists>rows. get_tasks status priority current_user s = (Inr rows, s)
      \<and> mset rows = mset (filter (\<lambda>t. t_user_id t = u_id current_user
                                      \<and> matches status (t_status t)
                                      \<and> matches priority (t_priority t)) (tasks s))
      \<and> sorted_wrt (\<lambda>a b. t_created_at b \<le> t_created_at a) rows"
proof -
  let ?rows = "order_by_created_at_desc
                 (filter (\<lambda>t. t_user_id t = u_id current_user \<and> matches status (t_status t)
                            \<and> matches priority (t_priority t)) (tasks s))"
  have "get_tasks status priority current_user s = (Inr ?rows, s)"
    by (simp add: get_tasks_eq select_tasks_sent [OF assms])
  moreover have "mset ?rows = mset (filter (\<lambda>t. t_user_id t = u_id current_user
                                      \<and> matches status (t_status t)
                                      \<and> matches priority (t_priority t)) (tasks s))"
    by (simp add: order_by_created_at_desc_def)
  moreover have "sorted_wrt (\<lambda>a b. t_created_at b \<le> t_created_at a) ?rows"
    by (rule newest_first)
  ultimately show ?thesis
    by (intro exI [of _ ?rows]) simp
qed

theorem get_tasks_filters_newest_first_witness:
  "nul_free (Some ''pending'') \<and> nul_free (Some ''high'')
   \<and> matches (Some ''pending'') (t_status report) \<and> matches (Some ''high'') (t_priority report)
   \<and> \<not> matches (Some ''pending'') (t_status groceries)
   \<and> get_tasks (Some ''pending'') (Some ''high'') alice store = (Inr [report], store)"
proof -
  have n: "nul_free (Some ''pending'')" "nul_free (Some ''high'')"
    by (simp_all add: nul_free_def has_nul_literal)
  have m: "matches (Some ''pending'') (t_status report)"
    "matches (Some ''high'') (t_priority report)"
    "\<not> matches (Some ''pending'') (t_status groceries)"
    by (simp_all add: matches_def report_def groceries_def)
  from get_tasks_filters_newest_first [OF n, of alice store]
  obtain rows where everything:
    "get_tasks (Some ''pending'') (Some ''high'') alice store = (Inr rows, store)
      \<and> mset rows = mset (filter (\<lambda>t. t_user_id t = u_id alice
                                      \<and> matches (Some ''pending'') (t_status t)
                                      \<and> matches (Some ''high'') (t_priority t)) (tasks store))
      \<and> sorted_wrt (\<lambda>a b. t_created_at b \<le> t_created_at a) rows"
    ..
  have "filter (\<lambda>t. t_user_id t = u_id alice
                                      \<and> matches (Some ''pending'') (t_status t)
                                      \<and> matches (Some ''high'') (t_priority t)) (tasks store)
        = [report]"
    using m by (simp add: store_def alice_def report_def groceries_def)
  with everything have "rows = [report]" by simp
  with everything have "get_tasks (Some ''pending'') (Some ''high'') alice store
      = (Inr [report], store)"
    by simp
  with n m show ?thesis
    by (intro conjI)
qed

subsection \<open>Tokens\<close>

lemma users_get_db_connection: "users (get_db_connection s) = users s"
  by (simp add: get_db_connection_def)

lemma select_user_by_id_connection:
  "select_user_by_id uid (get_db_connection s) = select_user_by_id uid s"
  by (simp add: select_user_by_id_def users_get_db_connection)



lemma get_current_user_decoded:
  assumes "jwt_decode token SECRET_KEY [ALGORITHM] now = Inr claims"
    and "map_of claims ''sub'' = Some uid"
  shows "get_current_user token now s =
           (case select_user_by_id uid s of
              None \<Rightarrow> (Inl credentials_exception, s)
            | Some u \<Rightarrow> (Inr u, s))"
  using assms
  by (simp add: get_current_user_def Let_def select_user_by_id_connection conn_roundtrip
      split: option.split)


lemma datetime_add_Inr: "datetime_add t d = Inr e \<Longrightarrow> e = t + d"
  by (auto simp: datetime_add_def split: if_splits)


lemma create_access_token_default:
  assumes "create_access_token data (Some 0) issued = Inr token"
  shows "token = signed (AList.update ''exp'' (issued + minutes 15) data)"
  using assms
  by (auto simp: create_access_token_def jwt_encode_def signed_def Let_def
      split: sum.splits dest: datetime_add_Inr)

lemma jwt_decode_signed:
  "jwt_decode (signed claims) SECRET_KEY [ALGORITHM] now
     = (case map_of claims ''exp'' of
          None \<Rightarrow> Inr claims
        | Some e \<Rightarrow> if e \<le> now then Inl ExpiredSignatureError else Inr claims)"
  by (simp add: jwt_decode_def signed_def)




subsection \<open>The active flag\<close>

lemma find_map_option:
  "find P (map f xs) = map_option f (find (\<lambda>x. P (f x)) xs)"
  by (induction xs) simp_all

lemma list_ex_map_fun: "list_ex P (map f xs) = list_ex (\<lambda>x. P (f x)) xs"
  by (induction xs) simp_all

lemma activate_fields:
  "u_id (activate u) = u_id u" "u_email (activate u) = u_email u"
  "u_username (activate u) = u_username u" "u_full_name (activate u) = u_full_name u"
  "u_hashed_password (activate u) = u_hashed_password u"
  "u_created_at (activate u) = u_created_at u"
  by (simp_all add: activate_def)

lemma to_User_activate: "to_User (activate u) = to_User u"
  by (simp add: to_User_def activate_fields)

lemma erase_fields:
  "tasks (erase_active s) = tasks s" "users (erase_active s) = map activate (users s)"
  "tasks_id_seq (erase_active s) = tasks_id_seq s"
  "users_id_seq (erase_active s) = users_id_seq s"
  "open_connections (erase_active s) = open_connections s"
  by (simp_all add: erase_active_def)

lemma erase_connection:
  "get_db_connection (erase_active s) = erase_active (get_db_connection s)"
  "conn_close (erase_active s) = erase_active (conn_close s)"
  by (simp_all add: erase_active_def get_db_connection_def conn_close_def)

lemma erase_tasks_update:
  "(erase_active s)\<lparr>tasks := ts\<rparr> = erase_active (s\<lparr>tasks := ts\<rparr>)"
  "(erase_active s)\<lparr>tasks := ts, tasks_id_seq := n\<rparr> = erase_active (s\<lparr>tasks := ts, tasks_id_seq := n\<rparr>)"
  by (simp_all add: erase_active_def)

lemma select_user_erase:
  "select_user_by_id uid (erase_active s) = map_option activate (select_user_by_id uid s)"
  "select_user_by_username name (erase_active s)
     = map_sum id (map_option activate) (select_user_by_username name s)"
  "select_user_by_email_or_username email name (erase_active s)
     = map_sum id (map_option activate) (select_user_by_email_or_username email name s)"
  by (simp_all add: select_user_by_id_def select_user_by_username_def
      select_user_by_email_or_username_def erase_fields find_map_option activate_fields)

lemma select_erase:
  "select_task task_id uid (erase_active s) = select_task task_id uid s"
  "select_tasks status priority uid (erase_active s) = select_tasks status priority uid s"
  "select_stats uid now (erase_active s) = select_stats uid now s"
  by (simp_all add: select_task_def select_tasks_def select_stats_def erase_fields)

lemma insert_task_erase:
  "insert_task uid title description priority due_date now (erase_active s)
     = (case insert_task uid title description priority due_date now s of
          Inl e \<Rightarrow> Inl e | Inr (row, s') \<Rightarrow> Inr (row, erase_active s'))"
  by (simp add: insert_task_def erase_fields list_ex_map_fun activate_fields Let_def
      erase_tasks_update split: sum.splits)

lemma update_tasks_erase:
  "update_tasks v task_id uid now (erase_active s)
     = (case update_tasks v task_id uid now s of
          Inl e \<Rightarrow> Inl e | Inr (row, s') \<Rightarrow> Inr (row, erase_active s'))"
  by (simp add: update_tasks_def erase_fields Let_def erase_tasks_update split: sum.splits)

lemma delete_tasks_erase:
  "delete_tasks task_id uid (erase_active s)
     = (case delete_tasks task_id uid s of (d, s') \<Rightarrow> (d, erase_active s'))"
  by (simp add: delete_tasks_def erase_fields Let_def erase_tasks_update)

lemma create_task_erase:
  "u_id cu' = u_id cu \<Longrightarrow>
   create_task task cu' now (erase_active s)
     = (case create_task task cu now s of (r, s') \<Rightarrow> (r, erase_active s'))"
  by (simp add: create_task_def Let_def erase_connection insert_task_erase
      split: sum.splits prod.splits)

lemma get_tasks_erase:
  "u_id cu' = u_id cu \<Longrightarrow>
   get_tasks status priority cu' (erase_active s)
     = (case get_tasks status priority cu s of (r, s') \<Rightarrow> (r, erase_active s'))"
  by (simp add: get_tasks_def Let_def erase_connection select_erase split: sum.splits)

lemma get_task_erase:
  "u_id cu' = u_id cu \<Longrightarrow>
   get_task task_id cu' (erase_active s)
     = (case get_task task_id cu s of (r, s') \<Rightarrow> (r, erase_active s'))"
  by (simp add: get_task_def Let_def erase_connection select_erase split: option.splits)

lemma update_task_erase:
  "u_id cu' = u_id cu \<Longrightarrow>
   update_task task_id v cu' now (erase_active s)
     = (case update_task task_id v cu now s of (r, s') \<Rightarrow> (r, erase_active s'))"
  by (auto simp: update_task_def Let_def erase_connection select_erase update_tasks_erase
      split: option.splits sum.splits prod.splits)

lemma delete_task_erase:
  "u_id cu' = u_id cu \<Longrightarrow>
   delete_task task_id cu' (erase_active s)
     = (case delete_task task_id cu s of (r, s') \<Rightarrow> (r, erase_active s'))"
  by (auto simp: delete_task_def Let_def erase_connection delete_tasks_erase
      split: option.splits prod.splits)

lemma get_task_statistics_erase:
  "u_id cu' = u_id cu \<Longrightarrow>
   get_task_statistics cu' now (erase_active s)
     = (case get_task_statistics cu now s of (r, s') \<Rightarrow> (r, erase_active s'))"
  by (simp add: get_task_statistics_def Let_def erase_connection select_erase)

lemma post_tasks_erase:
  "u_id cu' = u_id cu \<Longrightarrow>
   post_tasks body cu' now (erase_active s)
     = (case post_tasks body cu now s of (r, s') \<Rightarrow> (r, erase_active s'))"
  by (simp add: post_tasks_def create_task_erase split: sum.splits)

lemma put_task_erase:
  "u_id cu' = u_id cu \<Longrightarrow>
   put_task task_id body cu' now (erase_active s)
     = (case put_task task_id body cu now s of (r, s') \<Rightarrow> (r, erase_active s'))"
  by (simp add: put_task_def update_task_erase split: sum.splits)

lemma get_current_user_erase:
  "get_current_user token now (erase_active s)
     = (case get_current_user token now s of
          (Inl e, s') \<Rightarrow> (Inl e, erase_active s')
        | (Inr u, s') \<Rightarrow> (Inr (activate u), erase_active s'))"
  by (simp add: get_current_user_def Let_def erase_connection select_user_erase
      split: sum.splits option.splits)

lemma insert_user_erase:
  "insert_user email name full_name hashed now (erase_active s)
     = (case insert_user email name full_name hashed now s of
          Inl e \<Rightarrow> Inl e | Inr (row, s') \<Rightarrow> Inr (row, erase_active s'))"
  by (simp add: insert_user_def erase_fields list_ex_map_fun activate_fields Let_def
      erase_active_def activate_def split: sum.splits)

lemma register_erase:
  "register pc user now (erase_active s)
     = (case register pc user now s of (r, s') \<Rightarrow> (r, erase_active s'))"
proof (cases "select_user_by_email_or_username (uc_email user) (uc_username user)
                (get_db_connection s)")
  case (Inl e)
  then show ?thesis
    by (simp add: register_def Let_def erase_connection select_user_erase)
next
  case (Inr found)
  then show ?thesis
    by (cases found)
      (auto simp: register_def Let_def erase_connection select_user_erase insert_user_erase
        split: sum.splits prod.splits)
qed

lemma login_erase:
  "login pc form_data now (erase_active s)
     = (case login pc form_data now s of (r, s') \<Rightarrow> (r, erase_active s'))"
proof (cases "select_user_by_username (form_username form_data) (get_db_connection s)")
  case (Inl e)
  then show ?thesis
    by (simp add: login_def Let_def erase_connection select_user_erase)
next
  case (Inr found)
  then show ?thesis
    by (cases found)
      (auto simp: login_def Let_def erase_connection select_user_erase activate_fields
        split: sum.splits)
qed

lemma respond_erase:
  assumes "h' = (case h of (r, s') \<Rightarrow> (r, erase_active s'))"
  shows "respond f h' = (case respond f h of (r, s') \<Rightarrow> (r, erase_active s'))"
  using assms by (auto simp: respond_def split: prod.splits sum.splits)

lemma depends_erase:
  assumes "\<And>cu cu' s'. u_id cu' = u_id cu \<Longrightarrow> to_User cu' = to_User cu \<Longrightarrow>
             handler cu' (erase_active s') = (case handler cu s' of (r, t) \<Rightarrow> (r, erase_active t))"
  shows "depends token now (erase_active s) handler
           = (case depends token now s handler of (r, t) \<Rightarrow> (r, erase_active t))"
proof (cases "get_current_user token now s")
  case (Pair r s')
  show ?thesis
  proof (cases r)
    case (Inl e)
    then show ?thesis
      using Pair by (simp add: depends_def get_current_user_erase)
  next
    case (Inr u)
    have "handler (activate u) (erase_active s')
            = (case handler u s' of (r, t) \<Rightarrow> (r, erase_active t))"
      by (rule assms) (simp_all add: activate_fields to_User_activate)
    then show ?thesis
      using Pair Inr by (simp add: depends_def get_current_user_erase)
  qed
qed

lemma handle_erase:
  "handle pc req now (erase_active s)
     = (case handle pc req now s of (r, s') \<Rightarrow> (r, erase_active s'))"
proof (cases req)
  case (PostRegister user)
  then show ?thesis by (simp add: respond_erase register_erase)
next
  case (PostToken form_data)
  then show ?thesis by (simp add: respond_erase login_erase)
next
  case (GetUsersMe token)
  then show ?thesis
    by (simp add: read_users_me_def) (rule depends_erase, simp)
next
  case (PostTasks token body)
  then show ?thesis
    by simp (rule depends_erase, rule respond_erase, rule post_tasks_erase)
next
  case (GetTasks token status priority)
  then show ?thesis
    by simp (rule depends_erase, rule respond_erase, rule get_tasks_erase)
next
  case (GetTask token task_id)
  then show ?thesis
    by simp (rule depends_erase, rule respond_erase, rule get_task_erase)
next
  case (PutTask token task_id body)
  then show ?thesis
    by simp (rule depends_erase, rule respond_erase, rule put_task_erase)
next
  case (DeleteTask token task_id)
  then show ?thesis
    by simp (rule depends_erase, rule respond_erase, rule delete_task_erase)
next
  case (GetStatsSummary token)
  then show ?thesis
    by simp (rule depends_erase, rule respond_erase, rule get_task_statistics_erase)
qed

lemma serve_erase:
  "serve pc requests (erase_active s)
     = (case serve pc requests s of (rs, s') \<Rightarrow> (rs, erase_active s'))"
proof (induction requests arbitrary: s)
  case Nil
  show ?case by simp
next
  case (Cons a requests)
  obtain req now where a: "a = (req, now)" by (cases a)
  show ?case
    unfolding a by (simp add: handle_erase Cons.IH split: prod.splits)
qed

text \<open>
  C9. Two stores that differ only in the \<open>is_active\<close> flags of their user rows
  answer every sequence of requests (registration, login and every authenticated
  operation) with the same responses, and the stores they end in again differ only in
  those flags: the flag is never consulted. In particular a user whose flag is false logs
  in, obtains tokens and works on tasks exactly as an active user does.
\<close>

theorem is_active_is_never_consulted:
  assumes "erase_active s1 = erase_active s2"
  shows "fst (serve pc requests s1) = fst (serve pc requests s2)
       \<and> erase_active (snd (serve pc requests s1)) = erase_active (snd (serve pc requests s2))"
proof -
  have "serve pc requests (erase_active s1) = serve pc requests (erase_active s2)"
    using assms by simp
  then show ?thesis
    unfolding serve_erase by (auto split: prod.splits)
qed

theorem is_active_is_never_consulted_witness:
  "erase_active dormant = erase_active store
   \<and> dormant \<noteq> store
   \<and> fst (serve plain_context bob_session dormant) = fst (serve plain_context bob_session store)
   \<and> erase_active (snd (serve plain_context bob_session dormant))
       = erase_active (snd (serve plain_context bob_session store))
   \<and> fst (handle plain_context (PostToken bob_form) 100 dormant)
       = Inr (TokenResponse \<lparr>access_token = bob_token, refresh_token = bob_refresh_token,
                             token_type = ''bearer''\<rparr>)"
proof -
  have h: "erase_active dormant = erase_active store"
    by (simp add: erase_active_def dormant_def store_def activate_def alice_def bob_def)
  have d: "dormant \<noteq> store"
    by (simp add: dormant_def store_def bob_def)
  have sel: "select_user_by_username ''bob'' (get_db_connection dormant)
               = Inr (Some (bob\<lparr>u_is_active := False\<rparr>))"
    by (simp add: select_user_by_username_def get_db_connection_def dormant_def store_def
        alice_def bob_def refused_def has_nul_def)
  have a: "create_access_token [(''sub'', 2)] (Some (minutes ACCESS_TOKEN_EXPIRE_MINUTES)) 100
             = Inr bob_token"
    by (simp add: create_access_token_def jwt_encode_def bob_token_def signed_def
        datetime_add_def minutes_def ACCESS_TOKEN_EXPIRE_MINUTES_def datetime_min_def
        datetime_max_def Let_def)
  have r: "create_refresh_token [(''sub'', 2)] 100 = Inr bob_refresh_token"
    by (simp add: create_refresh_token_def jwt_encode_def bob_refresh_token_def signed_def
        datetime_add_def days_def REFRESH_TOKEN_EXPIRE_DAYS_def datetime_min_def
        datetime_max_def Let_def)
  have "login plain_context bob_form 100 dormant
      = (Inr \<lparr>access_token = bob_token, refresh_token = bob_refresh_token,
              token_type = ''bearer''\<rparr>, dormant)"
    unfolding login_def Let_def
    by (simp add: bob_form_def sel conn_roundtrip verify_password_def plain_context_def
        bob_def a r)
  then have l: "fst (handle plain_context (PostToken bob_form) 100 dormant)
       = Inr (TokenResponse \<lparr>access_token = bob_token, refresh_token = bob_refresh_token,
                             token_type = ''bearer''\<rparr>)"
    by (simp add: respond_def)
  show ?thesis
    using h d l is_active_is_never_consulted [OF h, of plain_context bob_session]
    by (intro conjI) simp_all
qed

subsection \<open>Connections\<close>

lemma varchar_error: "varchar n v = Inl e \<Longrightarrow> statement_error e"
  by (auto simp: varchar_def statement_error_def split: if_splits)

lemma varchar_opt_error: "varchar_opt n v = Inl e \<Longrightarrow> statement_error e"
  by (auto simp: varchar_opt_def split: option.splits sum.splits dest: varchar_error)

lemma insert_task_error:
  "insert_task uid title description priority due_date now s = Inl e \<Longrightarrow> statement_error e"
  by (auto simp: insert_task_def Let_def statement_error_def
      split: sum.splits if_splits dest: varchar_error)

lemma insert_task_connections:
  "insert_task uid title description priority due_date now s = Inr (row, s') \<Longrightarrow>
     open_connections s' = open_connections s"
  by (auto simp: insert_task_def Let_def split: sum.splits if_splits)

lemma update_tasks_error:
  "update_tasks v task_id uid now s = Inl e \<Longrightarrow> statement_error e"
  by (auto simp: update_tasks_def Let_def statement_error_def
      split: sum.splits if_splits dest: varchar_opt_error)

lemma update_tasks_connections:
  "update_tasks v task_id uid now s = Inr (row, s') \<Longrightarrow>
     open_connections s' = open_connections s"
  by (auto simp: update_tasks_def Let_def split: sum.splits if_splits)

lemma insert_user_error:
  "insert_user email name full_name hashed now s = Inl e \<Longrightarrow> statement_error e"
  by (auto simp: insert_user_def Let_def statement_error_def
      split: sum.splits if_splits dest: varchar_error varchar_opt_error)

lemma insert_user_connections:
  "insert_user email name full_name hashed now s = Inr (row, s') \<Longrightarrow>
     open_connections s' = open_connections s"
  by (auto simp: insert_user_def Let_def split: sum.splits if_splits)

lemma open_get_db_connection: "open_connections (get_db_connection s) = Suc (open_connections s)"
  by (simp add: get_db_connection_def)

lemma open_conn_close: "open_connections (conn_close s) = open_connections s - 1"
  by (simp add: conn_close_def)

lemma create_task_balance: "balance (create_task task cu now s) s"
proof (cases "insert_task (u_id cu) (tc_title task) (tc_description task)
                (tc_priority task) (tc_due_date task) now (get_db_connection s)")
  case (Inl e)
  then show ?thesis
    using insert_task_error [OF Inl]
    by (simp add: balance_def create_task_def Let_def raised_by_statement_def
        open_get_db_connection)
next
  case (Inr p)
  obtain row s' where p: "p = (row, s')" by (cases p)
  show ?thesis
    using insert_task_connections [OF Inr [unfolded p]]
    by (simp add: balance_def create_task_def Let_def Inr p raised_by_statement_def
        open_get_db_connection open_conn_close)
qed

lemma select_error:
  "select_tasks status priority uid s = Inl e \<Longrightarrow> statement_error e"
  "select_user_by_username name s = Inl e \<Longrightarrow> statement_error e"
  "select_user_by_email_or_username email name s = Inl e \<Longrightarrow> statement_error e"
  by (auto simp: select_tasks_def select_user_by_username_def
      select_user_by_email_or_username_def statement_error_def split: if_splits)

lemma token_error:
  "create_access_token data expires_delta now = Inl e \<Longrightarrow> e = OverflowError"
  "create_refresh_token data now = Inl e \<Longrightarrow> e = OverflowError"
  by (auto simp: create_access_token_def create_refresh_token_def datetime_add_def Let_def
      split: option.splits sum.splits if_splits)

lemma get_tasks_balance: "balance (get_tasks status priority cu s) s"
proof (cases "select_tasks status priority (u_id cu) s")
  case (Inl e)
  then show ?thesis
    using select_error(1) [OF Inl]
    by (simp add: balance_def get_tasks_eq raised_by_statement_def open_get_db_connection)
next
  case (Inr rows)
  then show ?thesis
    by (simp add: balance_def get_tasks_eq raised_by_statement_def)
qed

lemma get_task_balance: "balance (get_task task_id cu s) s"
  by (simp add: balance_def get_task_def Let_def conn_roundtrip raised_by_statement_def
      not_found_def statement_error_def split: option.splits)

lemma update_task_balance: "balance (update_task task_id v cu now s) s"
proof (cases "select_task task_id (u_id cu) s")
  case None
  then show ?thesis
    by (simp add: balance_def update_task_none raised_by_statement_def not_found_def
        statement_error_def)
next
  case (Some t)
  then have sel: "select_task task_id (u_id cu) (get_db_connection s) = Some t"
    by (simp add: select_task_connection)
  show ?thesis
  proof (cases "update_tasks v task_id (u_id cu) now (get_db_connection s)")
    case (Inl e)
    then show ?thesis
      using update_tasks_error [OF Inl]
      unfolding update_task_def Let_def sel
      by (simp add: balance_def raised_by_statement_def open_get_db_connection)
  next
    case (Inr p)
    obtain r s2 where p: "p = (r, s2)" by (cases p)
    show ?thesis
      using update_tasks_connections [OF Inr [unfolded p]]
      unfolding update_task_def Let_def sel Inr p
      by (cases r) (simp_all add: balance_def raised_by_statement_def statement_error_def
          open_get_db_connection open_conn_close)
  qed
qed

lemma delete_task_balance: "balance (delete_task task_id cu s) s"
  by (simp add: balance_def delete_task_def delete_tasks_def Let_def raised_by_statement_def
      not_found_def statement_error_def conn_close_def get_db_connection_def
      split: option.splits)

lemma get_task_statistics_balance: "balance (get_task_statistics cu now s) s"
  by (simp add: balance_def get_task_statistics_eq raised_by_statement_def)

lemma post_tasks_balance: "balance (post_tasks body cu now s) s"
proof (cases "parse_TaskCreate body")
  case (Inl e)
  then have "e = RequestValidationError"
    by (auto simp: parse_TaskCreate_def split: field.splits)
  then show ?thesis
    using Inl by (simp add: post_tasks_def balance_def raised_by_statement_def statement_error_def)
next
  case (Inr task)
  then show ?thesis
    by (simp add: post_tasks_def create_task_balance)
qed

lemma put_task_balance: "balance (put_task task_id body cu now s) s"
  by (simp add: put_task_def parse_TaskUpdate_def update_task_balance)

lemma register_balance: "balance (register pc user now s) s"
proof (cases "select_user_by_email_or_username (uc_email user) (uc_username user)
                (get_db_connection s)")
  case (Inl e)
  then show ?thesis
    using select_error(3) [OF Inl]
    by (simp add: balance_def register_def Let_def raised_by_statement_def
        open_get_db_connection)
next
  case (Inr found)
  show ?thesis
  proof (cases found)
    case (Some u)
    then show ?thesis
      using Inr
      by (simp add: balance_def register_def Let_def conn_roundtrip raised_by_statement_def
          statement_error_def)
  next
    case None
    show ?thesis
    proof (cases "insert_user (uc_email user) (uc_username user) (uc_full_name user)
                    (get_password_hash pc (uc_password user)) now (get_db_connection s)")
      case (Inl e)
      then show ?thesis
        using insert_user_error [OF Inl] Inr None
        by (simp add: balance_def register_def Let_def raised_by_statement_def
            open_get_db_connection)
    next
      case ins: (Inr p)
      obtain row s' where p: "p = (row, s')" by (cases p)
      show ?thesis
        using insert_user_connections [OF ins [unfolded p]] Inr None
        by (simp add: balance_def register_def Let_def ins p raised_by_statement_def
            open_get_db_connection open_conn_close)
    qed
  qed
qed

lemma login_balance: "balance (login pc form_data now s) s"
proof (cases "select_user_by_username (form_username form_data) (get_db_connection s)")
  case (Inl e)
  then show ?thesis
    using select_error(2) [OF Inl]
    by (simp add: balance_def login_def Let_def raised_by_statement_def
        open_get_db_connection)
next
  case (Inr found)
  have closed: "snd (login pc form_data now s) = s"
    using Inr
    by (auto simp: login_def Let_def conn_roundtrip split: option.splits sum.splits)
  have "\<not> raised_by_statement (fst (login pc form_data now s))"
    using Inr
    by (auto simp: login_def Let_def raised_by_statement_def statement_error_def
        split: option.splits sum.splits dest: token_error)
  then show ?thesis
    by (simp add: balance_def closed)
qed

lemma get_current_user_connections:
  "get_current_user token now s = (r, s') \<Longrightarrow>
     s' = s \<and> (case r of Inl e \<Rightarrow> e = credentials_exception | Inr _ \<Rightarrow> True)"
  by (auto simp: get_current_user_def Let_def conn_roundtrip
      split: sum.splits option.splits)

lemma respond_balance: "balance h s \<Longrightarrow> balance (respond f h) s"
  by (auto simp: balance_def respond_def raised_by_statement_def split: prod.splits sum.splits)

lemma depends_balance:
  assumes "\<And>cu. balance (handler cu s) s"
  shows "balance (depends token now s handler) s"
proof (cases "get_current_user token now s")
  case (Pair r s')
  from get_current_user_connections [OF Pair]
  have s': "s' = s" and r: "case r of Inl e \<Rightarrow> e = credentials_exception | Inr _ \<Rightarrow> True"
    by simp_all
  show ?thesis
  proof (cases r)
    case (Inl e)
    then show ?thesis
      using Pair r s'
      by (simp add: depends_def balance_def raised_by_statement_def credentials_exception_def
          statement_error_def)
  next
    case (Inr u)
    then show ?thesis
      using Pair s' assms [of u] by (simp add: depends_def)
  qed
qed

lemma handle_balance: "balance (handle pc req now s) s"
proof (cases req)
  case (GetUsersMe token)
  then show ?thesis
    by simp (rule depends_balance, simp add: balance_def raised_by_statement_def)
qed (simp_all add: respond_balance depends_balance register_balance login_balance
    post_tasks_balance get_tasks_balance get_task_balance put_task_balance
    delete_task_balance get_task_statistics_balance)

text \<open>
  Every request that ends in a response, in an HTTP exception or in an exception raised
  outside a statement closes the connection it opened; every request that ends in an
  exception that a statement raised leaves it open.
\<close>

lemma connections_released_unless_statement_raises:
  "open_connections (snd (handle pc req now s))
     = (if raised_by_statement (fst (handle pc req now s))
        then Suc (open_connections s) else open_connections s)"
  using handle_balance [of pc req now s] by (simp add: balance_def)

lemma get_current_user_alice: "get_current_user alice_token 200 store = (Inr alice, store)"
proof -
  have "jwt_decode alice_token SECRET_KEY [ALGORITHM] 200
          = Inr [(''sub'', 1), (''exp'', 1800000100)]"
    by (simp add: alice_token_def jwt_decode_signed)
  moreover have "select_user_by_id 1 store = Some alice"
    by (simp add: select_user_by_id_def store_def alice_def)
  ultimately show ?thesis
    using get_current_user_decoded
      [of alice_token 200 "[(''sub'', 1), (''exp'', 1800000100)]" 1 store]
    by simp
qed

text \<open>
  C6. The connection is not released on every exit path. An update of an owned task with
  a title of 256 characters, and a registration with a username of 101 characters, make
  the statement raise; the handler has no \<^verbatim>\<open>finally\<close>, the lines that close the
  connection are skipped, and the request ends with one connection open where none was.
\<close>

theorem connection_left_open_after_database_error:
  "open_connections store = 0
   \<and> handle plain_context (PutTask alice_token 1 (no_fields\<lparr>bu_title := Value long_title\<rparr>))
        200 store
       = (Inl StringDataRightTruncation, store\<lparr>open_connections := 1\<rparr>)
   \<and> handle plain_context (PostRegister carol) 200 store
       = (Inl StringDataRightTruncation, store\<lparr>open_connections := 1\<rparr>)"
proof -
  have c0: "open_connections store = 0"
    by (simp add: store_def)
  have open1: "get_db_connection store = store\<lparr>open_connections := 1\<rparr>"
    by (simp add: get_db_connection_def c0)
  have v: "varchar 255 long_title = Inl StringDataRightTruncation"
    by (simp add: varchar_def long_title_def)
  have upd: "update_tasks (only_title long_title) 1 (u_id alice) 200 (get_db_connection store)
      = Inl StringDataRightTruncation"
    by (simp add: update_tasks_def only_title_def varchar_opt_def v refused_def given_def
        has_nul_literal)
  have sel: "select_task 1 (u_id alice) (get_db_connection store) = Some report"
    using select_report by (simp add: select_task_connection)
  have u: "update_task 1 (only_title long_title) alice 200 store
      = (Inl StringDataRightTruncation, get_db_connection store)"
    unfolding update_task_def Let_def sel upd by simp
  have "put_task 1 (no_fields\<lparr>bu_title := Value long_title\<rparr>) alice 200 store
      = update_task 1 (only_title long_title) alice 200 store"
    by (simp add: put_task_def parse_TaskUpdate_def no_fields_def optional_def only_title_def)
  then have put: "handle plain_context
        (PutTask alice_token 1 (no_fields\<lparr>bu_title := Value long_title\<rparr>)) 200 store
       = (Inl StringDataRightTruncation, store\<lparr>open_connections := 1\<rparr>)"
    by (simp add: depends_def get_current_user_alice respond_def u open1)
  have n: "varchar 100 long_name = Inl StringDataRightTruncation"
    by (simp add: varchar_def long_name_def)
  have e: "varchar 255 ''carol@example.com'' = Inr ''carol@example.com''"
    by (simp add: varchar_def)
  have nn: "\<not> has_nul long_name" "\<not> has_nul ''carol@example.com''"
    "\<not> has_nul ''hash-of-c''"
    by (simp_all add: has_nul_def long_name_def)
  have ins: "insert_user ''carol@example.com'' long_name None ''hash-of-c'' 200
               (get_db_connection store) = Inl StringDataRightTruncation"
    by (simp add: insert_user_def e n refused_def given_def nn)
  have ln: "length long_name = 101"
    by (simp add: long_name_def)
  have names: "x \<noteq> long_name" if "length x < 101" for x
    using that ln by auto
  have free: "select_user_by_email_or_username ''carol@example.com'' long_name
                (get_db_connection store) = Inr None"
    using names [of "''alice''"] names [of "''bob''"]
    by (simp add: select_user_by_email_or_username_def get_db_connection_def store_def
        alice_def bob_def refused_def nn)
  have "register plain_context carol 200 store
      = (Inl StringDataRightTruncation, get_db_connection store)"
    unfolding register_def Let_def
    by (simp add: carol_def free ins get_password_hash_def plain_context_def)
  then have reg: "handle plain_context (PostRegister carol) 200 store
       = (Inl StringDataRightTruncation, store\<lparr>open_connections := 1\<rparr>)"
    by (simp add: respond_def open1)
  show ?thesis
    using c0 put reg by simp
qed

subsection \<open>Primary keys\<close>

text \<open>
  Every request preserves the primary keys, so task ids are unique in every store that
  requests can reach from the empty one.
\<close>

lemma primary_keys_connection:
  "primary_keys (get_db_connection s) = primary_keys s"
  "primary_keys (conn_close s) = primary_keys s"
  by (simp_all add: primary_keys_def get_db_connection_def conn_close_def)

lemma insert_task_primary_keys:
  assumes "primary_keys s"
    and "insert_task uid title description priority due_date now s = Inr (row, s')"
  shows "primary_keys s'"
proof -
  obtain title' priority' where s': "s' = s\<lparr>tasks := tasks s @
        [\<lparr>t_id = tasks_id_seq s, t_user_id = uid, t_title = title',
          t_description = description, t_priority = priority',
          t_status = ''pending'', t_due_date = due_date,
          t_created_at = now, t_updated_at = now\<rparr>],
       tasks_id_seq := tasks_id_seq s + 1\<rparr>"
    using assms(2) by (auto simp: insert_task_def Let_def split: sum.splits if_splits)
  have "tasks_id_seq s \<notin> t_id ` set (tasks s)"
    using assms(1) by (auto simp: primary_keys_def list_all_iff)
  moreover have "list_all (\<lambda>t. t_id t < tasks_id_seq s + 1) (tasks s)"
    using assms(1) by (auto simp: primary_keys_def list_all_iff)
  ultimately show ?thesis
    using assms(1) unfolding s' by (simp add: primary_keys_def)
qed

lemma update_tasks_primary_keys:
  assumes "primary_keys s" and "update_tasks v task_id uid now s = Inr (row, s')"
  shows "primary_keys s'"
proof -
  obtain v' where s': "s' = s\<lparr>tasks := map (\<lambda>t. if t_id t = task_id \<and> t_user_id t = uid
                                      then set_clause v' now t else t) (tasks s)\<rparr>"
    using assms(2) by (auto simp: update_tasks_def Let_def split: sum.splits if_splits)
  have ids: "map t_id (map (\<lambda>t. if t_id t = task_id \<and> t_user_id t = uid
                                then set_clause v' now t else t) (tasks s)) = map t_id (tasks s)"
    by (simp add: set_clause_key)
  have "list_all (\<lambda>t. t_id t < tasks_id_seq s)
          (map (\<lambda>t. if t_id t = task_id \<and> t_user_id t = uid
                     then set_clause v' now t else t) (tasks s))"
    using assms(1) by (auto simp: primary_keys_def list_all_iff set_clause_key)
  then show ?thesis
    using assms(1) unfolding s' primary_keys_def by (simp add: ids del: map_map)
qed

lemma delete_tasks_primary_keys:
  assumes "primary_keys s"
  shows "primary_keys (snd (delete_tasks task_id uid s))"
  using assms
  by (auto simp: delete_tasks_def Let_def primary_keys_def distinct_map_filter list_all_iff)

lemma insert_user_primary_keys:
  assumes "primary_keys s" and "insert_user email name full_name hashed now s = Inr (row, s')"
  shows "primary_keys s'"
proof -
  obtain r where s': "s' = s\<lparr>users := users s @ [r], users_id_seq := users_id_seq s + 1\<rparr>"
    and r: "u_id r = users_id_seq s"
    using assms(2) by (auto simp: insert_user_def Let_def split: sum.splits if_splits)
  have "users_id_seq s \<notin> u_id ` set (users s)"
    using assms(1) by (auto simp: primary_keys_def list_all_iff)
  moreover have "list_all (\<lambda>u. u_id u < users_id_seq s + 1) (users s)"
    using assms(1) by (auto simp: primary_keys_def list_all_iff)
  ultimately show ?thesis
    using assms(1) r unfolding s' by (simp add: primary_keys_def)
qed

lemma create_task_primary_keys:
  "primary_keys s \<Longrightarrow> primary_keys (snd (create_task task cu now s))"
  by (auto simp: create_task_def Let_def primary_keys_connection
      split: sum.splits dest: insert_task_primary_keys [rotated])

lemma update_task_primary_keys:
  "primary_keys s \<Longrightarrow> primary_keys (snd (update_task task_id v cu now s))"
  by (auto simp: update_task_def Let_def primary_keys_connection
      split: sum.splits option.splits dest: update_tasks_primary_keys [rotated])

lemma delete_task_primary_keys:
  assumes "primary_keys s"
  shows "primary_keys (snd (delete_task task_id cu s))"
proof -
  have "primary_keys (snd (delete_tasks task_id (u_id cu) (get_db_connection s)))"
    using assms by (intro delete_tasks_primary_keys) (simp add: primary_keys_connection)
  then show ?thesis
    by (auto simp: delete_task_def Let_def primary_keys_connection
        split: prod.splits option.splits)
qed

lemma register_primary_keys:
  "primary_keys s \<Longrightarrow> primary_keys (snd (register pc user now s))"
  by (auto simp: register_def Let_def primary_keys_connection
      split: sum.splits option.splits dest: insert_user_primary_keys [rotated])

lemma respond_state: "snd (respond f h) = snd h"
  by (auto simp: respond_def split: prod.splits sum.splits)

lemma depends_primary_keys:
  assumes "primary_keys s" and "\<And>cu. primary_keys (snd (handler cu s))"
  shows "primary_keys (snd (depends token now s handler))"
proof (cases "get_current_user token now s")
  case (Pair r s')
  from get_current_user_connections [OF Pair] have "s' = s" by simp
  then show ?thesis
    using Pair assms by (cases r) (simp_all add: depends_def)
qed

lemma handle_primary_keys:
  assumes "primary_keys s"
  shows "primary_keys (snd (handle pc req now s))"
proof (cases req)
  case (PostRegister user)
  then show ?thesis using assms by (simp add: respond_state register_primary_keys)
next
  case (PostToken form_data)
  then show ?thesis
    using assms
    by (auto simp: respond_state login_def Let_def conn_roundtrip primary_keys_connection
        split: option.splits sum.splits)
next
  case (GetUsersMe token)
  then show ?thesis using assms by (simp add: depends_primary_keys)
next
  case (PostTasks token body)
  then show ?thesis
    using assms
    by (auto intro!: depends_primary_keys
        simp: respond_state post_tasks_def create_task_primary_keys split: sum.splits)
next
  case (GetTasks token status priority)
  then show ?thesis
    using assms
    by (auto intro!: depends_primary_keys
        simp: respond_state get_tasks_eq primary_keys_connection split: sum.splits)
next
  case (GetTask token task_id)
  then show ?thesis
    using assms
    by (auto intro!: depends_primary_keys
        simp: respond_state get_task_def Let_def conn_roundtrip split: option.splits)
next
  case (PutTask token task_id body)
  then show ?thesis
    using assms
    by (auto intro!: depends_primary_keys
        simp: respond_state put_task_def parse_TaskUpdate_def update_task_primary_keys)
next
  case (DeleteTask token task_id)
  then show ?thesis
    using assms
    by (auto intro!: depends_primary_keys simp: respond_state delete_task_primary_keys)
next
  case (GetStatsSummary token)
  then show ?thesis
    using assms
    by (auto intro!: depends_primary_keys simp: respond_state get_task_statistics_eq)
qed

lemma serve_primary_keys:
  "primary_keys s \<Longrightarrow> primary_keys (snd (serve pc requests s))"
proof (induction requests arbitrary: s)
  case Nil
  then show ?case by simp
next
  case (Cons a requests)
  obtain req now where a: "a = (req, now)" by (cases a)
  have "primary_keys (snd (handle pc req now s))"
    using Cons.prems by (rule handle_primary_keys)
  from Cons.IH [OF this] show ?case
    unfolding a by (auto split: prod.splits)
qed

lemma reachable_primary_keys: "distinct (map t_id (tasks (snd (serve pc requests fresh_database))))"
proof -
  have "primary_keys fresh_database"
    by (simp add: primary_keys_def fresh_database_def)
  from serve_primary_keys [OF this, of pc requests] show ?thesis
    by (simp add: primary_keys_def)
qed

end
